theory Spec2Isabelle
  imports Main
begin


section \<open>Python strings and slices\<close>

text \<open>
  Strings are lists of characters; a character stands for a code point below 256, so the
  queries covered are those written in Latin-1. \<open>lower_char\<close> is \<open>str.lower\<close> on such a
  code point: the ASCII capitals and the Latin-1 capitals (192 to 222 without the
  multiplication sign 215) move up by 32, everything else stays.
\<close>

definition lower_char :: "char \<Rightarrow> char" where
  "lower_char c =
     (let n = (of_char c :: nat)
      in if (65 \<le> n \<and> n \<le> 90) \<or> (192 \<le> n \<and> n \<le> 222 \<and> n \<noteq> 215)
         then char_of (n + 32) else c)"

definition lower :: "string \<Rightarrow> string" where
  "lower s = map lower_char s"

text \<open>\<open>is_prefix p s\<close> is \<open>s.startswith(p)\<close>; \<open>contains w s\<close> is Python's \<open>w in s\<close>.\<close>

fun is_prefix :: "string \<Rightarrow> string \<Rightarrow> bool" where
  "is_prefix [] s = True"
| "is_prefix (p # ps) [] = False"
| "is_prefix (p # ps) (c # cs) = (p = c \<and> is_prefix ps cs)"

fun contains :: "string \<Rightarrow> string \<Rightarrow> bool" where
  "contains w [] = (w = [])"
| "contains w (c # cs) = (is_prefix w (c # cs) \<or> contains w cs)"

text \<open>\<open>any(word in s for word in ws)\<close>.\<close>

definition any_in :: "string list \<Rightarrow> string \<Rightarrow> bool" where
  "any_in ws s = list_ex (\<lambda>w. contains w s) ws"

text \<open>The slices \<open>xs[-n:]\<close> (for \<open>n = 0\<close> that is \<open>xs[0:]\<close>, all of \<open>xs\<close>) and \<open>xs[:n]\<close>.\<close>

definition last_n :: "nat \<Rightarrow> 'a list \<Rightarrow> 'a list" where
  "last_n n xs = (if n = 0 then xs else drop (length xs - n) xs)"

definition first_n :: "nat \<Rightarrow> 'a list \<Rightarrow> 'a list" where
  "first_n n xs = take n xs"

text \<open>\<open>sep.join(parts)\<close>.\<close>

fun join :: "string \<Rightarrow> string list \<Rightarrow> string" where
  "join sep [] = []"
| "join sep [p] = p"
| "join sep (p # q # ps) = p @ sep @ join sep (q # ps)"

text \<open>The newline character and \<open>str(n)\<close> for a natural number.\<close>

definition nl :: string where
  "nl = [CHR 0x0A]"

fun str_of_nat :: "nat \<Rightarrow> string" where
  "str_of_nat n =
     (if n < 10 then [char_of (48 + n)]
      else str_of_nat (n div 10) @ [char_of (48 + n mod 10)])"

declare str_of_nat.simps [simp del]

text \<open>
  \<open>s.split()\<close>: the words between runs of white space (the code points below 256 for which
  \<open>str.isspace\<close> holds).
\<close>

definition is_space :: "char \<Rightarrow> bool" where
  "is_space c =
     (let n = (of_char c :: nat)
      in (9 \<le> n \<and> n \<le> 13) \<or> (28 \<le> n \<and> n \<le> 32) \<or> n = 133 \<or> n = 160)"

fun split_from :: "string \<Rightarrow> string \<Rightarrow> string list" where
  "split_from cur [] = (if cur = [] then [] else [cur])"
| "split_from cur (c # cs) =
     (if is_space c then (if cur = [] then split_from [] cs else cur # split_from [] cs)
      else split_from (cur @ [c]) cs)"

definition split :: "string \<Rightarrow> string list" where
  "split s = split_from [] s"

section \<open>Exceptions\<close>

text \<open>
  The store is whatever \<open>json.load\<close> returned, so an operation on it may raise: a
  subscript with a key that is not there \<open>KeyError\<close>, a string subscript on a value that
  is not a dict \<open>TypeError\<close>, a method the value does not have \<open>AttributeError\<close>.
  \<open>str_of_exn\<close> is Python's \<open>str(e)\<close>: the key's \<open>repr\<close> for a \<open>KeyError\<close>, the message
  for the other two.
\<close>

datatype exn = KeyError string | TypeError string | AttributeError string

fun str_of_exn :: "exn \<Rightarrow> string" where
  "str_of_exn (KeyError k) = [CHR 0x27] @ k @ [CHR 0x27]"
| "str_of_exn (TypeError m) = m"
| "str_of_exn (AttributeError m) = m"

text \<open>The messages of CPython 3.11 for \<open>c['query']\<close> and \<open>s.append\<close> on strings.\<close>

definition string_index_message :: string where
  "string_index_message =
     ''string indices must be integers, not '' @ [CHR 0x27] @ ''str'' @ [CHR 0x27]"

definition no_append_message :: string where
  "no_append_message =
     [CHR 0x27] @ ''str'' @ [CHR 0x27] @ '' object has no attribute ''
       @ [CHR 0x27] @ ''append'' @ [CHR 0x27]"

section \<open>The memory store (memory.py)\<close>

text \<open>
  An entry of the history list is a dict; the keys \<open>query\<close> and \<open>response\<close> are
  subscripted by the readers, so the model records whether each is there. Entries written
  by \<open>store_interaction\<close> have both.
\<close>

record interaction =
  timestamp :: string
  query :: "string option"
  response :: "string option"
  agents :: "string list"

text \<open>A profile value is a list (appended to) or anything else (overwritten).\<close>

datatype pvalue = PList "string list" | PScalar string

text \<open>
  The value under \<open>session_history\<close> in the loaded document: not there, a JSON string, or
  a list of entries. A string can be sliced, measured and iterated like a list, its
  items being characters, but it has no \<open>append\<close> and a character has no keys.
\<close>

datatype history = Missing | Text string | Entries "interaction list"

datatype item = Entry interaction | Character char

definition history_items :: "history \<Rightarrow> exn + item list" where
  "history_items hv =
     (case hv of
        Missing \<Rightarrow> Inl (KeyError ''session_history'')
      | Text t \<Rightarrow> Inr (map Character t)
      | Entries h \<Rightarrow> Inr (map Entry h))"

text \<open>\<open>ctx['query']\<close> and \<open>ctx['response']\<close> on an item.\<close>

definition item_query :: "item \<Rightarrow> exn + string" where
  "item_query ctx =
     (case ctx of
        Character c \<Rightarrow> Inl (TypeError string_index_message)
      | Entry i \<Rightarrow> (case query i of None \<Rightarrow> Inl (KeyError ''query'') | Some q \<Rightarrow> Inr q))"

definition item_response :: "item \<Rightarrow> exn + string" where
  "item_response ctx =
     (case ctx of
        Character c \<Rightarrow> Inl (TypeError string_index_message)
      | Entry i \<Rightarrow> (case response i of None \<Rightarrow> Inl (KeyError ''response'') | Some r \<Rightarrow> Inr r))"

text \<open>
  \<open>self.memory\<close>: \<open>None\<close> for the profile means that subscripting \<open>user_profile\<close> raises.
  The \<open>context\<close> section is never read or written and is left out; \<open>_save_memory\<close>
  swallows its own failures and does not change \<open>self.memory\<close>, so it is not a step of the
  model.
\<close>

record MemoryStore =
  session_history :: history
  user_profile :: "(string \<rightharpoonup> pvalue) option"

definition init_memory :: MemoryStore where
  "init_memory =
     \<lparr> session_history = Entries [],
       user_profile = Some [''topics_asked'' \<mapsto> PList [],
                            ''coding_languages'' \<mapsto> PList [],
                            ''study_goals'' \<mapsto> PList []] \<rparr>"

text \<open>\<open>now\<close> is the value of \<open>datetime.now().isoformat()\<close> at the call.\<close>

definition new_interaction :: "string \<Rightarrow> string \<Rightarrow> string \<Rightarrow> string list \<Rightarrow> interaction" where
  "new_interaction now q r ags =
     \<lparr> timestamp = now, query = Some q, response = Some (first_n 500 r), agents = ags \<rparr>"

definition store_interaction ::
  "string \<Rightarrow> string \<Rightarrow> string \<Rightarrow> string list \<Rightarrow> MemoryStore \<Rightarrow> exn + MemoryStore" where
  "store_interaction now q r ags st =
     (case session_history st of
        Missing \<Rightarrow> Inl (KeyError ''session_history'')
      | Text t \<Rightarrow> Inl (AttributeError no_append_message)
      | Entries h \<Rightarrow>
          (let h1 = h @ [new_interaction now q r ags];
               h2 = (if length h1 > 20 then last_n 20 h1 else h1)
           in Inr (st\<lparr>session_history := Entries h2\<rparr>)))"

definition retrieve_recent_context :: "nat \<Rightarrow> MemoryStore \<Rightarrow> exn + item list" where
  "retrieve_recent_context limit st =
     (case history_items (session_history st) of
        Inl e \<Rightarrow> Inl e
      | Inr xs \<Rightarrow> Inr (last_n limit xs))"

definition update_user_profile :: "string \<Rightarrow> string \<Rightarrow> MemoryStore \<Rightarrow> exn + MemoryStore" where
  "update_user_profile key v st =
     (case user_profile st of
        None \<Rightarrow> Inl (KeyError ''user_profile'')
      | Some p \<Rightarrow>
          (case p key of
             Some (PList xs) \<Rightarrow>
               (if v \<in> set xs then Inr st
                else Inr (st\<lparr>user_profile := Some (p(key \<mapsto> PList (xs @ [v])))\<rparr>))
           | Some (PScalar old) \<Rightarrow> Inr (st\<lparr>user_profile := Some (p(key \<mapsto> PScalar v))\<rparr>)
           | None \<Rightarrow> Inr (st\<lparr>user_profile := Some (p(key \<mapsto> PScalar v))\<rparr>)))"

definition get_user_profile :: "MemoryStore \<Rightarrow> exn + (string \<rightharpoonup> pvalue)" where
  "get_user_profile st =
     (case user_profile st of None \<Rightarrow> Inl (KeyError ''user_profile'') | Some p \<Rightarrow> Inr p)"

text \<open>
  \<open>search_history\<close>: the \<open>or\<close> is short-circuit, so \<open>response\<close> is subscripted only when the
  keyword is not in the query.
\<close>

definition entry_matches :: "string \<Rightarrow> item \<Rightarrow> exn + bool" where
  "entry_matches kw i =
     (case item_query i of
        Inl e \<Rightarrow> Inl e
      | Inr q \<Rightarrow>
          (if contains kw (lower q) then Inr True
           else (case item_response i of
                   Inl e \<Rightarrow> Inl e
                 | Inr r \<Rightarrow> Inr (contains kw (lower r)))))"

fun search_entries :: "string \<Rightarrow> item list \<Rightarrow> exn + item list" where
  "search_entries kw [] = Inr []"
| "search_entries kw (i # is) =
     (case entry_matches kw i of
        Inl e \<Rightarrow> Inl e
      | Inr b \<Rightarrow>
          (case search_entries kw is of
             Inl e \<Rightarrow> Inl e
           | Inr rs \<Rightarrow> Inr (if b then i # rs else rs)))"

definition search_history :: "string \<Rightarrow> MemoryStore \<Rightarrow> exn + item list" where
  "search_history keyword st =
     (case history_items (session_history st) of
        Inl e \<Rightarrow> Inl e
      | Inr xs \<Rightarrow> search_entries (lower keyword) xs)"

text \<open>A sequence of \<open>store_interaction\<close> calls, each given as (now, query, response, agents).\<close>

type_synonym store_call = "string \<times> string \<times> string \<times> string list"

definition interaction_of :: "store_call \<Rightarrow> interaction" where
  "interaction_of c = (case c of (now, q, r, ags) \<Rightarrow> new_interaction now q r ags)"

fun store_all :: "store_call list \<Rightarrow> MemoryStore \<Rightarrow> exn + MemoryStore" where
  "store_all [] st = Inr st"
| "store_all (c # cs) st =
     (case c of (now, q, r, ags) \<Rightarrow>
        (case store_interaction now q r ags st of
           Inl e \<Rightarrow> Inl e
         | Inr st' \<Rightarrow> store_all cs st'))"

text \<open>A sequence of \<open>update_user_profile\<close> calls, each given as (key, value).\<close>

fun update_all :: "(string \<times> string) list \<Rightarrow> MemoryStore \<Rightarrow> exn + MemoryStore" where
  "update_all [] st = Inr st"
| "update_all (kv # kvs) st =
     (case update_user_profile (fst kv) (snd kv) st of
        Inl e \<Rightarrow> Inl e
      | Inr st' \<Rightarrow> update_all kvs st')"

definition predefined_keys :: "string list" where
  "predefined_keys = [''topics_asked'', ''coding_languages'', ''study_goals'']"

text \<open>The profile holds lists under the predefined keys only.\<close>

definition lists_predefined :: "(string \<rightharpoonup> pvalue) \<Rightarrow> bool" where
  "lists_predefined p = (\<forall>k xs. p k = Some (PList xs) \<longrightarrow> k \<in> set predefined_keys)"

text \<open>Twenty-one calls with different queries, for the eviction scenario.\<close>

definition calls21 :: "store_call list" where
  "calls21 = map (\<lambda>n. (''t'', replicate n (CHR ''q''), ''r'', [''router''])) [0..<21]"

section \<open>Structured outputs (models.py)\<close>

datatype QueryType = THEORY | CODE | PLANNING | GENERAL | MEMORY

record RoutingDecision =
  query_type :: QueryType
  target_agents :: "string list"
  reasoning :: string
  priority :: int
  needs_memory :: bool
  needs_tools :: bool

record TheoryExplanation =
  concept :: string
  explanation :: string
  key_points :: "string list"
  examples :: "string list"
  related_concepts :: "string list"
  difficulty_level :: string

text \<open>Fields that share a name with a field of an earlier record carry a prefix.\<close>

record CodeHelp =
  problem_description :: string
  solution_approach :: string
  code_example :: "string option"
  ch_explanation :: string
  best_practices :: "string list"
  common_pitfalls :: "string list"

text \<open>
  A step of a plan is a dict; its values are kept in the form an f-string prints them.
  \<open>dict_get\<close> is \<open>d.get(k, default)\<close>.
\<close>

type_synonym step = "(string \<times> string) list"

definition dict_get :: "step \<Rightarrow> string \<Rightarrow> string \<Rightarrow> string" where
  "dict_get d k dflt = (case map_of d k of None \<Rightarrow> dflt | Some v \<Rightarrow> v)"

record StudyPlan =
  goal :: string
  steps :: "step list"
  total_estimated_time :: string
  priority_order :: "int list"
  resources :: "string list"
  milestones :: "string list"

record MemoryUpdate =
  action :: string
  key :: string
  mu_value :: "string option"
  retrieved_context :: "string option"
  mu_reasoning :: string

record FinalResponse =
  answer :: string
  fr_agents_involved :: "string list"
  fr_tools_used :: "string list"
  memory_accessed :: bool
  confidence :: string

text \<open>Python truthiness of an optional string: there and not empty.\<close>

definition truthy :: "string option \<Rightarrow> bool" where
  "truthy x = (case x of None \<Rightarrow> False | Some s \<Rightarrow> s \<noteq> [])"

section \<open>What a run gets from outside\<close>

text \<open>
  The outcome of the generator call of each agent in the run (\<open>None\<close> when the chain
  raises; a parsed output has the record's shape), what the interpreter subprocess of
  the code executor returns for a snippet, and the clock.
\<close>

record exec_result =
  success :: bool
  exec_output :: string
  exec_error :: "string option"

record env =
  llm_router :: "RoutingDecision option"
  llm_theory :: "TheoryExplanation option"
  llm_code :: "CodeHelp option"
  llm_plan :: "StudyPlan option"
  subprocess_run :: "string \<Rightarrow> exec_result"
  clock :: string

section \<open>Tools (tools.py)\<close>

definition dangerous_keywords :: "string list" where
  "dangerous_keywords = [''import os'', ''import sys'', ''__import__'', ''open('', ''file('']"

definition execute_python :: "env \<Rightarrow> string \<Rightarrow> exec_result" where
  "execute_python ev code =
     (case find (\<lambda>keyword. contains keyword (lower code)) dangerous_keywords of
        Some keyword \<Rightarrow>
          \<lparr> success = False,
            exec_output = ''Error: Potentially unsafe operation detected: '' @ keyword,
            exec_error = Some ''Security restriction'' \<rparr>
      | None \<Rightarrow> subprocess_run ev code)"

section \<open>Agents (agents.py)\<close>

subsection \<open>Router\<close>

text \<open>The context lines built before the generator is called; each subscripts \<open>query\<close>.\<close>

fun recent_lines :: "item list \<Rightarrow> exn + string" where
  "recent_lines [] = Inr []"
| "recent_lines (ctx # rest) =
     (case item_query ctx of
        Inl e \<Rightarrow> Inl e
      | Inr q \<Rightarrow>
          (case recent_lines rest of
             Inl e \<Rightarrow> Inl e
           | Inr s \<Rightarrow> Inr (''- Q: '' @ first_n 100 q @ nl @ s)))"

definition theory_words :: "string list" where
  "theory_words = [''what is'', ''explain'', ''concept'', ''theory'', ''how does'']"

definition code_words :: "string list" where
  "code_words = [''code'', ''implement'', ''python'', ''function'', ''debug'', ''syntax'']"

definition planning_words :: "string list" where
  "planning_words = [''plan'', ''schedule'', ''learn'', ''study'', ''steps'']"

definition fallback_routing :: "string \<Rightarrow> item list \<Rightarrow> RoutingDecision" where
  "fallback_routing q recent_context =
     (let query_lower = lower q;
          (qt, ta) =
            (if any_in theory_words query_lower then (THEORY, [''theory_explainer''])
             else if any_in code_words query_lower then (CODE, [''code_helper''])
             else if any_in planning_words query_lower then (PLANNING, [''planner''])
             else (GENERAL, [''theory_explainer'']))
      in \<lparr> query_type = qt, target_agents = ta,
           reasoning = ''Fallback routing based on keywords'',
           priority = 1,
           needs_memory = (length recent_context > 0),
           needs_tools = False \<rparr>)"

definition route_query :: "env \<Rightarrow> string \<Rightarrow> MemoryStore \<Rightarrow> exn + RoutingDecision" where
  "route_query ev q st =
     (case retrieve_recent_context 2 st of
        Inl e \<Rightarrow> Inl e
      | Inr recent_context \<Rightarrow>
          (case recent_lines recent_context of
             Inl e \<Rightarrow> Inl e
           | Inr context_str \<Rightarrow>
               (case llm_router ev of
                  Some decision \<Rightarrow> Inr decision
                | None \<Rightarrow> Inr (fallback_routing q recent_context))))"

subsection \<open>Theory explainer\<close>

text \<open>
  The knowledge-base lookup only adds text to the prompt. \<open>query.split("?")[0]\<close> is the
  part before the first question mark.
\<close>

definition explain :: "env \<Rightarrow> string \<Rightarrow> string option \<Rightarrow> TheoryExplanation" where
  "explain ev q context =
     (case llm_theory ev of
        Some e \<Rightarrow> e
      | None \<Rightarrow>
          \<lparr> concept = (if CHR ''?'' \<in> set q then takeWhile (\<lambda>c. c \<noteq> CHR ''?'') q
                       else first_n 50 q),
            explanation =
              ''I'' @ [CHR 0x27] @ ''ll help explain this concept. Let me provide a clear explanation...'',
            key_points = [''Key point 1'', ''Key point 2''],
            examples = [],
            related_concepts = [],
            difficulty_level = ''intermediate'' \<rparr>)"

subsection \<open>Code helper\<close>

text \<open>
  \<open>help_with_code\<close> returns the help and, next to it, the snippets it has handed to
  \<open>execute_python\<close>, in order: calling the executor is something the agent does, not
  a part of its result.
\<close>

definition help_with_code :: "env \<Rightarrow> string \<Rightarrow> string option \<Rightarrow> CodeHelp \<times> string list" where
  "help_with_code ev q context =
     (case llm_code ev of
        Some code_help \<Rightarrow>
          (case code_example code_help of
             None \<Rightarrow> (code_help, [])
           | Some code \<Rightarrow>
               (if code \<noteq> [] \<and> contains ''print'' (lower code) then
                  (let exec_result = execute_python ev code
                   in if success exec_result
                      then (code_help\<lparr>ch_explanation :=
                              ch_explanation code_help @ nl @ nl @ ''Execution result: ''
                                @ exec_output exec_result\<rparr>, [code])
                      else (code_help, [code]))
                else (code_help, [])))
      | None \<Rightarrow>
          (\<lparr> problem_description = q,
             solution_approach = ''Analyze the problem step by step'',
             code_example = None,
             ch_explanation = ''I'' @ [CHR 0x27] @ ''ll help you with this coding question.'',
             best_practices = [],
             common_pitfalls = [] \<rparr>, []))"

subsection \<open>Planner\<close>

text \<open>The profile only adds text to the prompt; \<open>format_schedule\<close> is computed and dropped.\<close>

definition create_plan :: "env \<Rightarrow> string \<Rightarrow> (string \<rightharpoonup> pvalue) \<Rightarrow> StudyPlan" where
  "create_plan ev q profile =
     (case llm_plan ev of
        Some plan \<Rightarrow> plan
      | None \<Rightarrow>
          \<lparr> goal = q,
            steps = [[(''step'', ''1''), (''description'', ''Understand basics''),
                      (''estimated_time'', ''2 hours'')],
                     [(''step'', ''2''), (''description'', ''Practice examples''),
                      (''estimated_time'', ''3 hours'')]],
            total_estimated_time = ''5 hours'',
            priority_order = [1, 2],
            resources = [],
            milestones = [] \<rparr>)"

subsection \<open>Memory manager\<close>

fun context_parts :: "item list \<Rightarrow> exn + string list" where
  "context_parts [] = Inr []"
| "context_parts (ctx # rest) =
     (case item_query ctx of
        Inl e \<Rightarrow> Inl e
      | Inr q \<Rightarrow>
          (case item_response ctx of
             Inl e \<Rightarrow> Inl e
           | Inr r \<Rightarrow>
               (case context_parts rest of
                  Inl e \<Rightarrow> Inl e
                | Inr ps \<Rightarrow> Inr ((''Q: '' @ q @ nl @ ''A: '' @ first_n 200 r) # ps))))"

text \<open>\<open>search_results.extend(...)\<close> over the keywords, in order.\<close>

fun search_keywords :: "string list \<Rightarrow> MemoryStore \<Rightarrow> exn + item list" where
  "search_keywords [] st = Inr []"
| "search_keywords (keyword # rest) st =
     (case search_history keyword st of
        Inl e \<Rightarrow> Inl e
      | Inr results \<Rightarrow>
          (case search_keywords rest st of
             Inl e \<Rightarrow> Inl e
           | Inr others \<Rightarrow> Inr (results @ others)))"

fun related_lines :: "item list \<Rightarrow> exn + string" where
  "related_lines [] = Inr []"
| "related_lines (result # rest) =
     (case item_query result of
        Inl e \<Rightarrow> Inl e
      | Inr q \<Rightarrow>
          (case related_lines rest of
             Inl e \<Rightarrow> Inl e
           | Inr s \<Rightarrow> Inr (''- '' @ first_n 100 q @ nl @ s)))"

definition store_words :: "string list" where
  "store_words = [''remember'', ''store'', ''save'']"

definition retrieve_words :: "string list" where
  "retrieve_words = [''what did'', ''previous'', ''earlier'', ''before'']"

definition retrieve_update :: "string \<Rightarrow> MemoryStore \<Rightarrow> exn + MemoryUpdate" where
  "retrieve_update query_lower st =
     (case retrieve_recent_context 3 st of
        Inl e \<Rightarrow> Inl e
      | Inr recent \<Rightarrow>
          (case context_parts recent of
             Inl e \<Rightarrow> Inl e
           | Inr parts \<Rightarrow>
               (let found = (if parts \<noteq> [] then join nl parts else ''No previous context found'');
                    keywords = filter (\<lambda>word. length word > 3) (split query_lower)
                in case search_keywords (first_n 2 keywords) st of
                     Inl e \<Rightarrow> Inl e
                   | Inr search_results \<Rightarrow>
                       (case (if search_results \<noteq> []
                              then (case related_lines (first_n 2 search_results) of
                                      Inl e \<Rightarrow> Inl e
                                    | Inr ls \<Rightarrow>
                                        Inr (found @ nl @ nl @ ''Related previous discussions:''
                                               @ nl @ ls))
                              else Inr found) of
                          Inl e \<Rightarrow> Inl e
                        | Inr ctx \<Rightarrow>
                            Inr \<lparr> action = ''retrieve'', key = ''session_context'',
                                  mu_value = None, retrieved_context = Some ctx,
                                  mu_reasoning =
                                    ''Retrieved recent session history and related discussions'' \<rparr>))))"

text \<open>
  \<open>manage_memory\<close>; the first argument is the agent's \<open>memory_store\<close> attribute, \<open>None\<close>
  until \<open>set_memory_store\<close> is called.
\<close>

definition manage_memory :: "MemoryStore option \<Rightarrow> string \<Rightarrow> string \<Rightarrow> exn + MemoryUpdate" where
  "manage_memory memory_store q act =
     (case memory_store of
        None \<Rightarrow>
          Inr \<lparr> action = ''none'', key = [], mu_value = None, retrieved_context = None,
                mu_reasoning = ''Memory store not available'' \<rparr>
      | Some st \<Rightarrow>
          (let query_lower = lower q;
               act' = (if act = ''auto''
                       then (if any_in store_words query_lower then ''store''
                             else if any_in retrieve_words query_lower then ''retrieve''
                             else ''retrieve'')
                       else act)
           in if act' = ''retrieve'' then retrieve_update query_lower st
              else if act' = ''store'' then
                Inr \<lparr> action = ''store'', key = ''user_preference'', mu_value = Some q,
                      retrieved_context = None,
                      mu_reasoning = ''Storing user preference or information'' \<rparr>
              else
                Inr \<lparr> action = ''none'', key = [], mu_value = None, retrieved_context = None,
                      mu_reasoning = ''No memory action needed'' \<rparr>))"

subsection \<open>The keyword fallback in the words of the specification\<close>

text \<open>
  The specification lists three keyword groups in order, each with its query type and
  target, and a default; the first group with a token in the lower-cased query wins.
\<close>

definition spec_keyword_groups :: "(string list \<times> QueryType \<times> string list) list" where
  "spec_keyword_groups =
     [([''what is'', ''explain'', ''concept'', ''theory'', ''how does''],
       THEORY, [''theory_explainer'']),
      ([''code'', ''implement'', ''python'', ''function'', ''debug'', ''syntax''],
       CODE, [''code_helper'']),
      ([''plan'', ''schedule'', ''learn'', ''study'', ''steps''],
       PLANNING, [''planner''])]"

fun first_match ::
  "string \<Rightarrow> (string list \<times> QueryType \<times> string list) list \<Rightarrow> QueryType \<times> string list" where
  "first_match ql [] = (GENERAL, [''theory_explainer''])"
| "first_match ql (g # gs) =
     (if \<exists>w \<in> set (fst g). contains w ql then snd g else first_match ql gs)"

definition spec_fallback :: "string \<Rightarrow> QueryType \<times> string list" where
  "spec_fallback q = first_match (lower q) spec_keyword_groups"

section \<open>The workflow (graph.py)\<close>

record MultiAgentState =
  user_query :: string
  routing_decision :: "RoutingDecision option"
  theory_explanation :: "TheoryExplanation option"
  code_help :: "CodeHelp option"
  study_plan :: "StudyPlan option"
  memory_update :: "MemoryUpdate option"
  memory_context :: "string option"
  final_response :: "FinalResponse option"
  agents_involved :: "string list"
  tools_used :: "string list"
  error :: "string option"

text \<open>
  A node takes the state and the store and returns the dict it builds (\<open>{**state, ...}\<close>,
  so every key of the state is in it) and the store as it has left it. Printing is not
  modelled.
\<close>

definition router_node ::
  "env \<Rightarrow> MultiAgentState \<Rightarrow> MemoryStore \<Rightarrow> MultiAgentState \<times> MemoryStore" where
  "router_node ev s st =
     (case route_query ev (user_query s) st of
        Inr decision \<Rightarrow>
          (s\<lparr>routing_decision := Some decision, agents_involved := [''router'']\<rparr>, st)
      | Inl e \<Rightarrow>
          (s\<lparr>error := Some (''Router error: '' @ str_of_exn e),
             routing_decision :=
               Some \<lparr> query_type = GENERAL, target_agents = [''theory_explainer''],
                      reasoning = ''Fallback routing'', priority = 1,
                      needs_memory = False, needs_tools = False \<rparr>\<rparr>, st))"

definition memory_manager_node ::
  "env \<Rightarrow> MultiAgentState \<Rightarrow> MemoryStore \<Rightarrow> MultiAgentState \<times> MemoryStore" where
  "memory_manager_node ev s st =
     (let failed = (\<lambda>e. (s\<lparr>memory_context := None,
                             error := Some (''Memory error: '' @ str_of_exn e)\<rparr>, st));
          act = (case routing_decision s of
                   None \<Rightarrow> ''auto''
                 | Some routing \<Rightarrow> if needs_memory routing then ''retrieve'' else ''auto'')
      in case manage_memory (Some st) (user_query s) act of
           Inl e \<Rightarrow> failed e
         | Inr mu \<Rightarrow>
             (let new_state = s\<lparr>memory_update := Some mu,
                                 memory_context := retrieved_context mu,
                                 agents_involved := [''memory_manager'']\<rparr>
              in if action mu = ''store'' \<and> truthy (mu_value mu) then
                   (case update_user_profile ''user_preferences'' (the (mu_value mu)) st of
                      Inl e \<Rightarrow> failed e
                    | Inr st' \<Rightarrow> (new_state, st'))
                 else (new_state, st)))"

definition theory_explainer_node ::
  "env \<Rightarrow> MultiAgentState \<Rightarrow> MemoryStore \<Rightarrow> MultiAgentState \<times> MemoryStore" where
  "theory_explainer_node ev s st =
     (let expl = explain ev (user_query s) (memory_context s)
      in case update_user_profile ''topics_asked'' (concept expl) st of
           Inl e \<Rightarrow> (s\<lparr>error := Some (''Theory explainer error: '' @ str_of_exn e)\<rparr>, st)
         | Inr st' \<Rightarrow>
             (s\<lparr>theory_explanation := Some expl,
                agents_involved := [''theory_explainer'']\<rparr>, st'))"

text \<open>
  \<open>tools_used\<close> is the state's list with the tool appended; the append is in place, on
  the list the workflow holds (see \<open>apply_update\<close> below).
\<close>

definition code_helper_node ::
  "env \<Rightarrow> MultiAgentState \<Rightarrow> MemoryStore \<Rightarrow> MultiAgentState \<times> MemoryStore" where
  "code_helper_node ev s st =
     (let ch = fst (help_with_code ev (user_query s) (memory_context s));
          updated = (if contains ''python'' (lower (user_query s))
                     then update_user_profile ''coding_languages'' ''Python'' st
                     else Inr st)
      in case updated of
           Inl e \<Rightarrow> (s\<lparr>error := Some (''Code helper error: '' @ str_of_exn e)\<rparr>, st)
         | Inr st' \<Rightarrow>
             (let tools = (if truthy (code_example ch)
                           then tools_used s @ [''code_executor''] else tools_used s)
              in (s\<lparr>code_help := Some ch, agents_involved := [''code_helper''],
                     tools_used := tools\<rparr>, st')))"

definition planner_node ::
  "env \<Rightarrow> MultiAgentState \<Rightarrow> MemoryStore \<Rightarrow> MultiAgentState \<times> MemoryStore" where
  "planner_node ev s st =
     (let failed = (\<lambda>e. (s\<lparr>error := Some (''Planner error: '' @ str_of_exn e)\<rparr>, st))
      in case get_user_profile st of
           Inl e \<Rightarrow> failed e
         | Inr profile \<Rightarrow>
             (let plan = create_plan ev (user_query s) profile
              in case update_user_profile ''study_goals'' (goal plan) st of
                   Inl e \<Rightarrow> failed e
                 | Inr st' \<Rightarrow>
                     (s\<lparr>study_plan := Some plan, agents_involved := [''planner''],
                        tools_used := tools_used s @ [''schedule_tool'']\<rparr>, st')))"

subsection \<open>Synthesizer\<close>

definition bullets :: "string list \<Rightarrow> string" where
  "bullets xs = join nl (map (\<lambda>x. ''- '' @ x) xs)"

definition theory_parts :: "TheoryExplanation \<Rightarrow> string list" where
  "theory_parts exp =
     [''## Explanation: '' @ concept exp @ nl @ nl @ explanation exp @ nl @ nl,
      ''**Key Points:**'' @ nl @ bullets (key_points exp) @ nl @ nl]
     @ (if examples exp \<noteq> []
        then [''**Examples:**'' @ nl @ bullets (examples exp) @ nl @ nl] else [])"

definition code_parts :: "CodeHelp \<Rightarrow> string list" where
  "code_parts ch =
     [''## Code Help'' @ nl @ nl @ ch_explanation ch @ nl @ nl,
      ''**Approach:** '' @ solution_approach ch @ nl @ nl]
     @ (if truthy (code_example ch)
        then [''**Code Example:**'' @ nl @ ''```python'' @ nl @ the (code_example ch) @ nl
                @ ''```'' @ nl @ nl]
        else [])
     @ (if best_practices ch \<noteq> []
        then [''**Best Practices:**'' @ nl @ bullets (best_practices ch) @ nl @ nl] else [])"

text \<open>\<open>enumerate(sp.steps, 1)\<close>: the counter is the first argument.\<close>

fun step_parts :: "nat \<Rightarrow> step list \<Rightarrow> string list" where
  "step_parts i [] = []"
| "step_parts i (st # rest) =
     (''**Step '' @ str_of_nat i @ '':** '' @ dict_get st ''description'' ''N/A'' @ nl)
     # (''   Estimated time: '' @ dict_get st ''estimated_time'' ''N/A'' @ nl @ nl)
     # step_parts (Suc i) rest"

definition plan_parts :: "StudyPlan \<Rightarrow> string list" where
  "plan_parts sp =
     [''## Study Plan: '' @ goal sp @ nl @ nl]
     @ step_parts 1 (steps sp)
     @ [''**Total estimated time:** '' @ total_estimated_time sp @ nl @ nl]
     @ (if resources sp \<noteq> []
        then [''**Resources:**'' @ nl @ bullets (resources sp) @ nl @ nl] else [])"

definition has_context :: "MultiAgentState \<Rightarrow> bool" where
  "has_context s =
     (case memory_update s of None \<Rightarrow> False | Some mu \<Rightarrow> truthy (retrieved_context mu))"

definition answer_parts :: "MultiAgentState \<Rightarrow> string list" where
  "answer_parts s =
     (case theory_explanation s of None \<Rightarrow> [] | Some exp \<Rightarrow> theory_parts exp)
     @ (case code_help s of None \<Rightarrow> [] | Some ch \<Rightarrow> code_parts ch)
     @ (case study_plan s of None \<Rightarrow> [] | Some sp \<Rightarrow> plan_parts sp)
     @ (if has_context s
        then [''## Context from Previous Conversations'' @ nl @ nl
                @ first_n 300 (the (retrieved_context (the (memory_update s))))
                @ ''...'' @ nl @ nl]
        else [])"

definition agents_used :: "MultiAgentState \<Rightarrow> string list" where
  "agents_used s =
     (if theory_explanation s \<noteq> None then [''theory_explainer''] else [])
     @ (if code_help s \<noteq> None then [''code_helper''] else [])
     @ (if study_plan s \<noteq> None then [''planner''] else [])
     @ (if has_context s then [''memory_manager''] else [])"

definition no_parts_answer :: string where
  "no_parts_answer = ''I'' @ [CHR 0x27] @ ''m here to help! Could you provide more details?''"

text \<open>
  \<open>list(set(xs))\<close> keeps one copy of each element, in an order Python does not fix; the
  model keeps the last copy of each, and no property below depends on the order.
\<close>

definition final_answer :: "MultiAgentState \<Rightarrow> string" where
  "final_answer s =
     (let parts = answer_parts s in if parts \<noteq> [] then concat parts else no_parts_answer)"

definition confidence_of :: "MultiAgentState \<Rightarrow> string" where
  "confidence_of s =
     (let conf = (if length (agents_used s) > 1 \<and> \<not> truthy (error s)
                  then ''high'' else ''medium'')
      in if truthy (error s) then ''low'' else conf)"

text \<open>The response built in the \<open>try\<close> block, and the one built by its handler.\<close>

definition merged_response :: "MultiAgentState \<Rightarrow> FinalResponse" where
  "merged_response s =
     \<lparr> answer = final_answer s,
       fr_agents_involved = remdups (agents_used s @ agents_involved s),
       fr_tools_used = remdups (tools_used s),
       memory_accessed = (memory_context s \<noteq> None),
       confidence = confidence_of s \<rparr>"

definition handler_response :: "exn \<Rightarrow> MultiAgentState \<Rightarrow> FinalResponse" where
  "handler_response e s =
     \<lparr> answer = ''Error generating response: '' @ str_of_exn e,
       fr_agents_involved = agents_involved s,
       fr_tools_used = tools_used s,
       memory_accessed = False,
       confidence = ''low'' \<rparr>"

definition synthesizer_node ::
  "env \<Rightarrow> MultiAgentState \<Rightarrow> MemoryStore \<Rightarrow> MultiAgentState \<times> MemoryStore" where
  "synthesizer_node ev s st =
     (let fr = merged_response s
      in case store_interaction (clock ev) (user_query s) (final_answer s)
                (fr_agents_involved fr) st of
           Inr st' \<Rightarrow> (s\<lparr>final_response := Some fr\<rparr>, st')
         | Inl e \<Rightarrow>
             (s\<lparr>error := Some (''Synthesizer error: '' @ str_of_exn e),
                final_response := Some (handler_response e s)\<rparr>, st))"

subsection \<open>Edges\<close>

datatype node =
  N_router | N_memory_manager | N_theory_explainer | N_code_helper | N_planner
  | N_synthesizer | N_END

definition node_of_agent :: "string \<Rightarrow> node" where
  "node_of_agent agent =
     (if agent = ''theory_explainer'' then N_theory_explainer
      else if agent = ''code_helper'' then N_code_helper
      else if agent = ''planner'' then N_planner
      else N_synthesizer)"

definition route_after_router :: "MultiAgentState \<Rightarrow> node" where
  "route_after_router s =
     (case routing_decision s of
        None \<Rightarrow> N_synthesizer
      | Some routing \<Rightarrow>
          (if needs_memory routing then N_memory_manager
           else (case target_agents routing of
                   [] \<Rightarrow> N_synthesizer
                 | agent # rest \<Rightarrow> node_of_agent agent)))"

definition route_after_memory :: "MultiAgentState \<Rightarrow> node" where
  "route_after_memory s =
     (case routing_decision s of
        None \<Rightarrow> N_synthesizer
      | Some routing \<Rightarrow>
          (case target_agents routing of
             [] \<Rightarrow> N_synthesizer
           | agent # rest \<Rightarrow> node_of_agent agent))"

fun next_node :: "node \<Rightarrow> MultiAgentState \<Rightarrow> node" where
  "next_node N_router s = route_after_router s"
| "next_node N_memory_manager s = route_after_memory s"
| "next_node N_theory_explainer s = N_synthesizer"
| "next_node N_code_helper s = N_synthesizer"
| "next_node N_planner s = N_synthesizer"
| "next_node N_synthesizer s = N_END"
| "next_node N_END s = N_END"

subsection \<open>Running the workflow\<close>

text \<open>
  The two accumulated keys are declared with the reducer \<open>operator.add\<close>: the value a
  node returns for them is appended to the value the workflow holds; every other key is
  replaced. For \<open>agents_involved\<close> a node returns a new list or, through \<open>**state\<close>, the
  held one. For \<open>tools_used\<close> every node returns the held list object itself, which the
  code helper and the planner have extended in place before returning it: the held value
  is by then equal to the returned one, and the reducer appends the list to itself.
\<close>

definition apply_update :: "MultiAgentState \<Rightarrow> MultiAgentState \<Rightarrow> MultiAgentState" where
  "apply_update s upd =
     upd\<lparr>agents_involved := agents_involved s @ agents_involved upd,
         tools_used := tools_used upd @ tools_used upd\<rparr>"

fun node_fn ::
  "node \<Rightarrow> env \<Rightarrow> MultiAgentState \<Rightarrow> MemoryStore \<Rightarrow> MultiAgentState \<times> MemoryStore" where
  "node_fn N_router = router_node"
| "node_fn N_memory_manager = memory_manager_node"
| "node_fn N_theory_explainer = theory_explainer_node"
| "node_fn N_code_helper = code_helper_node"
| "node_fn N_planner = planner_node"
| "node_fn N_synthesizer = synthesizer_node"
| "node_fn N_END = (\<lambda>ev s st. (s, st))"

definition exec_node ::
  "env \<Rightarrow> node \<Rightarrow> MultiAgentState \<Rightarrow> MemoryStore \<Rightarrow> MultiAgentState \<times> MemoryStore" where
  "exec_node ev n s st = (case node_fn n ev s st of (upd, st') \<Rightarrow> (apply_update s upd, st'))"

text \<open>The distance of a node from the end of the workflow; every edge lowers it.\<close>

fun rank :: "node \<Rightarrow> nat" where
  "rank N_router = 4"
| "rank N_memory_manager = 3"
| "rank N_theory_explainer = 2"
| "rank N_code_helper = 2"
| "rank N_planner = 2"
| "rank N_synthesizer = 1"
| "rank N_END = 0"

text \<open>
  \<open>run\<close> executes the nodes from \<open>n\<close> on and returns the final state, the final store and
  the nodes it has executed, in order.
\<close>

function run ::
  "env \<Rightarrow> node \<Rightarrow> MultiAgentState \<Rightarrow> MemoryStore
     \<Rightarrow> MultiAgentState \<times> MemoryStore \<times> node list" where
  "run ev n s st =
     (if n = N_END then (s, st, [])
      else (case exec_node ev n s st of
              (s', st') \<Rightarrow>
                (case run ev (next_node n s') s' st' of
                   (sf, stf, path) \<Rightarrow> (sf, stf, n # path))))"
  by pat_completeness auto
termination
proof (relation "measure (\<lambda>(ev, n, s, st). rank n)")
  show "wf (measure (\<lambda>(ev, n, s, st). rank n))" by simp
next
  fix ev :: env and n :: node and s :: MultiAgentState and st :: MemoryStore
    and x :: "MultiAgentState \<times> MemoryStore" and s' :: MultiAgentState and st' :: MemoryStore
  assume "n \<noteq> N_END"
  then have "rank (next_node n s') < rank n"
    by (cases n)
       (auto simp: route_after_router_def route_after_memory_def node_of_agent_def
             split: option.splits list.splits)
  then show "((ev, next_node n s', s', st'), (ev, n, s, st)) \<in> measure (\<lambda>(ev, n, s, st). rank n)"
    by simp
qed

declare run.simps [simp del]

definition initial_state :: "string \<Rightarrow> MultiAgentState" where
  "initial_state q =
     \<lparr> user_query = q, routing_decision = None, theory_explanation = None,
       code_help = None, study_plan = None, memory_update = None,
       memory_context = None, final_response = None,
       agents_involved = [], tools_used = [], error = None \<rparr>"

definition process_query ::
  "env \<Rightarrow> MemoryStore \<Rightarrow> string \<Rightarrow> MultiAgentState \<times> MemoryStore \<times> node list" where
  "process_query ev st q = run ev N_router (initial_state q) st"

section \<open>Concrete inputs\<close>

text \<open>An environment in which every generator call fails and the subprocess reports failure.\<close>

definition env0 :: env where
  "env0 = \<lparr> llm_router = None, llm_theory = None, llm_code = None, llm_plan = None,
            subprocess_run = (\<lambda>c. \<lparr>success = False, exec_output = [], exec_error = None\<rparr>),
            clock = ''2024-01-01T00:00:00'' \<rparr>"


text \<open>A store loaded from a document without the \<open>session_history\<close> section.\<close>

definition store_no_history :: MemoryStore where
  "store_no_history = init_memory\<lparr>session_history := Missing\<rparr>"



text \<open>A generator output for the code helper whose example has no print call.\<close>

definition env_no_print :: env where
  "env_no_print =
     env0\<lparr>llm_code :=
       Some \<lparr> problem_description = ''assign a variable'',
              solution_approach = ''use an assignment'',
              code_example = Some ''x = 1'',
              ch_explanation = ''The name x is bound to 1.'',
              best_practices = [], common_pitfalls = [] \<rparr>\<rparr>"

text \<open>A store loaded from a document whose \<open>session_history\<close> is the empty string.\<close>

definition store_text_history :: MemoryStore where
  "store_text_history = init_memory\<lparr>session_history := Text []\<rparr>"

text \<open>A generator output for the router that asks for memory.\<close>

definition env_needs_memory :: env where
  "env_needs_memory =
     env0\<lparr>llm_router :=
       Some \<lparr> query_type = THEORY, target_agents = [''theory_explainer''],
              reasoning = ''a question about a concept'', priority = 1,
              needs_memory = True, needs_tools = False \<rparr>\<rparr>"

text \<open>
  A generator output for the code helper whose example prints and opens a file; the
  executor refuses it.
\<close>

definition unsafe_code :: string where
  "unsafe_code = ''print(open('' @ [CHR 0x27] @ ''f'' @ [CHR 0x27] @ '').read())''"

definition env_unsafe_print :: env where
  "env_unsafe_print =
     env0\<lparr>llm_code :=
       Some \<lparr> problem_description = ''read a file'',
              solution_approach = ''open it and print it'',
              code_example = Some unsafe_code,
              ch_explanation = ''The file is read and printed.'',
              best_practices = [], common_pitfalls = [] \<rparr>\<rparr>"

section \<open>What holds along a run\<close>

text \<open>The profile entry that the store path of the memory stage writes.\<close>

definition preference :: "MemoryStore \<Rightarrow> pvalue option" where
  "preference st = (case user_profile st of None \<Rightarrow> None | Some p \<Rightarrow> p ''user_preferences'')"

text \<open>
  \<open>memory_inv st0 p n s st\<close>: the nodes in \<open>p\<close> have run from the store \<open>st0\<close>, \<open>n\<close> is next,
  and the state and store are \<open>s\<close> and \<open>st\<close>. The memory manager is entered only with a
  routing decision that asks for memory and before anything is recorded about memory; a
  recorded memory update comes from the memory manager and is a retrieval; the history
  and the preference entry of the profile are those of \<open>st0\<close>.
\<close>

definition memory_inv ::
  "MemoryStore \<Rightarrow> node list \<Rightarrow> node \<Rightarrow> MultiAgentState \<Rightarrow> MemoryStore \<Rightarrow> bool" where
  "memory_inv st0 p n s st \<longleftrightarrow>
     (n = N_memory_manager \<longrightarrow> (\<exists>r. routing_decision s = Some r \<and> needs_memory r))
     \<and> (n = N_memory_manager \<or> n = N_router \<longrightarrow> memory_update s = None)
     \<and> (memory_update s = None \<longleftrightarrow> memory_context s = None)
     \<and> (\<forall>mu. memory_update s = Some mu \<longrightarrow>
           N_memory_manager \<in> set p \<and> action mu = ''retrieve'' \<and> mu_value mu = None)
     \<and> session_history st = session_history st0
     \<and> preference st = preference st0"

text \<open>
  The number of agents that have contributed a section to the answer: the theory
  explainer, the code helper and the planner by their result, the memory manager by a
  retrieved context that is not empty. The router has no section.
\<close>

definition sections_contributed :: "MultiAgentState \<Rightarrow> nat" where
  "sections_contributed s =
     (case theory_explanation s of None \<Rightarrow> 0 | Some e \<Rightarrow> 1)
     + (case code_help s of None \<Rightarrow> 0 | Some c \<Rightarrow> 1)
     + (case study_plan s of None \<Rightarrow> 0 | Some p \<Rightarrow> 1)
     + (case memory_update s of
          None \<Rightarrow> 0
        | Some mu \<Rightarrow>
            (case retrieved_context mu of None \<Rightarrow> 0 | Some c \<Rightarrow> if c = [] then 0 else 1))"

section \<open>Properties\<close>

subsection \<open>Session history and user profile\<close>

lemma last_n_short: "length xs \<le> n \<Longrightarrow> last_n n xs = xs"
  by (simp add: last_n_def)

lemma last_n_append_ge: "0 < n \<Longrightarrow> n \<le> length b \<Longrightarrow> last_n n (a @ b) = last_n n b"
  by (simp add: last_n_def)

lemma last_n_last_n_append:
  assumes "0 < n"
  shows "last_n n (last_n n xs @ ys) = last_n n (xs @ ys)"
proof (cases "length xs \<le> n")
  case True
  then show ?thesis by (simp add: last_n_short)
next
  case False
  then have len: "length (last_n n xs) = n" using assms by (simp add: last_n_def)
  have "xs @ ys = take (length xs - n) xs @ (last_n n xs @ ys)"
    using assms by (simp add: last_n_def)
  moreover have "n \<le> length (last_n n xs @ ys)" using len by simp
  ultimately show ?thesis using last_n_append_ge [OF assms] by metis
qed

lemma last_n_tl: "0 < n \<Longrightarrow> length xs = Suc n \<Longrightarrow> last_n n xs = tl xs"
  by (simp add: last_n_def drop_Suc)

lemma length_last_n: "0 < n \<Longrightarrow> length (last_n n xs) = min n (length xs)"
  by (simp add: last_n_def)

lemma last_n_empty: "0 < n \<Longrightarrow> last_n n xs = [] \<longleftrightarrow> xs = []"
  by (cases xs) (auto simp: last_n_def)

lemma last_n_map: "last_n n (map f xs) = map f (last_n n xs)"
  by (simp add: last_n_def drop_map)

lemma store_interaction_history:
  "session_history st = Entries h \<Longrightarrow>
   store_interaction now q r ags st =
     Inr (st\<lparr>session_history := Entries (last_n 20 (h @ [new_interaction now q r ags]))\<rparr>)"
  by (simp add: store_interaction_def Let_def last_n_short)

lemma store_all_history:
  "session_history st = Entries h \<Longrightarrow> length h \<le> 20 \<Longrightarrow>
   store_all cs st = Inr (st\<lparr>session_history := Entries (last_n 20 (h @ map interaction_of cs))\<rparr>)"
proof (induction cs arbitrary: st h)
  case Nil
  then show ?case by (simp add: last_n_short)
next
  case (Cons c cs)
  obtain now q r ags where c: "c = (now, q, r, ags)" by (cases c) auto
  let ?h1 = "last_n 20 (h @ [new_interaction now q r ags])"
  let ?st1 = "st\<lparr>session_history := Entries ?h1\<rparr>"
  have s1: "store_interaction now q r ags st = Inr ?st1"
    using Cons.prems(1) by (rule store_interaction_history)
  have "store_all cs ?st1 = Inr (?st1\<lparr>session_history := Entries (last_n 20 (?h1 @ map interaction_of cs))\<rparr>)"
    by (rule Cons.IH) (simp_all add: length_last_n)
  moreover have "last_n 20 (?h1 @ map interaction_of cs) = last_n 20 (h @ map interaction_of (c # cs))"
    using last_n_last_n_append [of 20 "h @ [new_interaction now q r ags]" "map interaction_of cs"]
    by (simp add: c interaction_of_def)
  ultimately show ?case using s1 by (simp add: c)
qed


lemma store_all_history_any:
  assumes "session_history st = Entries h" and "length h \<le> 20 \<or> cs \<noteq> []"
  shows "store_all cs st = Inr (st\<lparr>session_history := Entries (last_n 20 (h @ map interaction_of cs))\<rparr>)"
proof (cases "length h \<le> 20")
  case True
  with assms(1) show ?thesis by (rule store_all_history)
next
  case False
  with assms(2) obtain c cs' where cs: "cs = c # cs'" by (cases cs) auto
  obtain now q r ags where c: "c = (now, q, r, ags)" by (cases c) auto
  let ?h1 = "last_n 20 (h @ [new_interaction now q r ags])"
  let ?st1 = "st\<lparr>session_history := Entries ?h1\<rparr>"
  have s1: "store_interaction now q r ags st = Inr ?st1"
    using assms(1) by (rule store_interaction_history)
  have "store_all cs' ?st1 =
          Inr (?st1\<lparr>session_history := Entries (last_n 20 (?h1 @ map interaction_of cs'))\<rparr>)"
    by (rule store_all_history) (simp_all add: length_last_n)
  moreover have "last_n 20 (?h1 @ map interaction_of cs') = last_n 20 (h @ map interaction_of cs)"
    using last_n_last_n_append [of 20 "h @ [new_interaction now q r ags]" "map interaction_of cs'"]
    by (simp add: cs c interaction_of_def)
  ultimately show ?thesis using s1 by (simp add: cs c)
qed

text \<open>
  C5: any sequence of \<open>store_interaction\<close> calls succeeds on a store with a history and
  leaves exactly the most recent 20 of all entries, in insertion order (for no call at
  all, on a history of at most 20 entries, that is the history itself); the length is
  the smaller of 20 and the number of entries, and when the 21st entry arrives the first
  one is dropped.
\<close>

theorem history_bound:
  assumes "session_history st = Entries h" and "length h \<le> 20 \<or> cs \<noteq> []"
  shows "\<exists>h'. store_all cs st = Inr (st\<lparr>session_history := Entries h'\<rparr>)
           \<and> h' = last_n 20 (h @ map interaction_of cs)
           \<and> length h' = min 20 (length h + length cs)
           \<and> (length h + length cs = 21 \<longrightarrow> h' = tl (h @ map interaction_of cs))"
proof -
  let ?all = "h @ map interaction_of cs"
  have "store_all cs st = Inr (st\<lparr>session_history := Entries (last_n 20 ?all)\<rparr>)"
    using assms by (rule store_all_history_any)
  moreover have "length (last_n 20 ?all) = min 20 (length h + length cs)"
    by (simp add: length_last_n)
  moreover have "length h + length cs = 21 \<longrightarrow> last_n 20 ?all = tl ?all"
  proof
    assume "length h + length cs = 21"
    then have "length ?all = Suc 20" by simp
    then show "last_n 20 ?all = tl ?all" by (simp add: last_n_tl)
  qed
  ultimately show ?thesis by blast
qed

theorem history_bound_witness:
  "\<exists>h'. store_all calls21 init_memory = Inr (init_memory\<lparr>session_history := Entries h'\<rparr>)
         \<and> length h' = 20 \<and> h' = tl (map interaction_of calls21)"
  using history_bound [of init_memory "[]" calls21]
  by (simp add: init_memory_def calls21_def)

lemma update_present:
  "user_profile st = Some p \<Longrightarrow> p k = Some (PList xs) \<Longrightarrow> v \<in> set xs \<Longrightarrow>
   update_user_profile k v st = Inr st"
  by (simp add: update_user_profile_def)

lemma update_absent:
  "user_profile st = Some p \<Longrightarrow> p k = Some (PList xs) \<Longrightarrow> v \<notin> set xs \<Longrightarrow>
   update_user_profile k v st = Inr (st\<lparr>user_profile := Some (p(k \<mapsto> PList (xs @ [v])))\<rparr>)"
  by (simp add: update_user_profile_def)

lemma update_scalar:
  "user_profile st = Some p \<Longrightarrow> \<forall>xs. p k \<noteq> Some (PList xs) \<Longrightarrow>
   update_user_profile k v st = Inr (st\<lparr>user_profile := Some (p(k \<mapsto> PScalar v))\<rparr>)"
  by (auto simp: update_user_profile_def split: option.splits pvalue.splits)

lemma update_total:
  "user_profile st = Some p \<Longrightarrow>
   \<exists>p'. update_user_profile k v st = Inr (st\<lparr>user_profile := Some p'\<rparr>)
        \<and> (lists_predefined p \<longrightarrow> lists_predefined p')"
proof (cases "\<exists>xs. p k = Some (PList xs)")
  case False
  assume up: "user_profile st = Some p"
  have "lists_predefined p \<longrightarrow> lists_predefined (p(k \<mapsto> PScalar v))"
    by (auto simp: lists_predefined_def)
  with False up show ?thesis using update_scalar [of st p k v] by auto
next
  case True
  assume up: "user_profile st = Some p"
  from True obtain xs where xs: "p k = Some (PList xs)" by blast
  show ?thesis
  proof (cases "v \<in> set xs")
    case True
    have "st\<lparr>user_profile := Some p\<rparr> = st" using up by simp
    then show ?thesis using update_present [OF up xs True] by metis
  next
    case False
    have "lists_predefined p \<longrightarrow> lists_predefined (p(k \<mapsto> PList (xs @ [v])))"
      using xs by (auto simp: lists_predefined_def)
    then show ?thesis using update_absent [OF up xs False] by blast
  qed
qed

lemma lists_predefined_init:
  "\<exists>p. user_profile init_memory = Some p \<and> lists_predefined p"
  by (simp add: init_memory_def lists_predefined_def predefined_keys_def)

lemma update_all_total:
  "user_profile st = Some p \<Longrightarrow> lists_predefined p \<Longrightarrow>
   \<exists>p'. update_all kvs st = Inr (st\<lparr>user_profile := Some p'\<rparr>) \<and> lists_predefined p'"
proof (induction kvs arbitrary: st p)
  case Nil
  then have "st\<lparr>user_profile := Some p\<rparr> = st" by simp
  with Nil show ?case by (metis update_all.simps(1))
next
  case (Cons kv kvs)
  from update_total [OF Cons.prems(1), of "fst kv" "snd kv"] Cons.prems(2)
  obtain p1 where s1: "update_user_profile (fst kv) (snd kv) st = Inr (st\<lparr>user_profile := Some p1\<rparr>)"
    and l1: "lists_predefined p1" by blast
  let ?st1 = "st\<lparr>user_profile := Some p1\<rparr>"
  have "user_profile ?st1 = Some p1" by simp
  from Cons.IH [OF this l1]
  obtain p' where "update_all kvs ?st1 = Inr (?st1\<lparr>user_profile := Some p'\<rparr>)"
    and "lists_predefined p'" by blast
  then show ?case using s1 by auto
qed

text \<open>
  C9: on each of the three predefined list keys, two \<open>update_user_profile\<close> calls with the
  same value from the empty profile leave the one-element list; in any store, updating a
  list key with a value it already holds changes nothing.
\<close>

theorem profile_dedup:
  "(\<forall>k \<in> set predefined_keys.
      \<exists>st p. update_all [(k, x), (k, x)] init_memory = Inr st
            \<and> user_profile st = Some p \<and> p k = Some (PList [x]))
   \<and> (\<forall>st p k xs. user_profile st = Some p \<and> p k = Some (PList xs) \<and> x \<in> set xs
         \<longrightarrow> update_user_profile k x st = Inr st)"
proof
  show "\<forall>k \<in> set predefined_keys.
      \<exists>st p. update_all [(k, x), (k, x)] init_memory = Inr st
            \<and> user_profile st = Some p \<and> p k = Some (PList [x])"
    by (simp add: predefined_keys_def init_memory_def update_user_profile_def)
  show "\<forall>st p k xs. user_profile st = Some p \<and> p k = Some (PList xs) \<and> x \<in> set xs
         \<longrightarrow> update_user_profile k x st = Inr st"
    using update_present by blast
qed

theorem profile_dedup_witness:
  "\<exists>st p. update_all [(''topics_asked'', ''X''), (''topics_asked'', ''X'')] init_memory = Inr st
         \<and> user_profile st = Some p \<and> p ''topics_asked'' = Some (PList [''X''])"
  using profile_dedup [of "''X''"] by (simp add: predefined_keys_def)

text \<open>
  C10: in any profile built from the empty one by \<open>update_user_profile\<close> calls, lists are
  held under the three predefined keys only; for every other key, such as
  \<open>user_preferences\<close>, the call stores the value as a scalar and the next call with that
  key overwrites it.
\<close>

theorem other_keys_scalar:
  assumes "k \<notin> set predefined_keys"
  shows "\<exists>st p. update_all kvs init_memory = Inr st \<and> user_profile st = Some p
           \<and> lists_predefined p
           \<and> update_user_profile k v st = Inr (st\<lparr>user_profile := Some (p(k \<mapsto> PScalar v))\<rparr>)
           \<and> update_user_profile k v' (st\<lparr>user_profile := Some (p(k \<mapsto> PScalar v))\<rparr>)
               = Inr (st\<lparr>user_profile := Some (p(k \<mapsto> PScalar v'))\<rparr>)"
proof -
  obtain p0 where p0: "user_profile init_memory = Some p0" "lists_predefined p0"
    using lists_predefined_init by blast
  from update_all_total [OF p0, of kvs]
  obtain p where st: "update_all kvs init_memory = Inr (init_memory\<lparr>user_profile := Some p\<rparr>)"
    and lp: "lists_predefined p" by blast
  let ?st = "init_memory\<lparr>user_profile := Some p\<rparr>"
  let ?st1 = "?st\<lparr>user_profile := Some (p(k \<mapsto> PScalar v))\<rparr>"
  have nl: "\<forall>xs. p k \<noteq> Some (PList xs)"
    using lp assms by (auto simp: lists_predefined_def)
  have u1: "update_user_profile k v ?st = Inr ?st1"
    using update_scalar [of ?st p k v] nl by simp
  have u2: "update_user_profile k v' ?st1 = Inr (?st\<lparr>user_profile := Some (p(k \<mapsto> PScalar v'))\<rparr>)"
    using update_scalar [of ?st1 "p(k \<mapsto> PScalar v)" k v'] by simp
  show ?thesis using st lp u1 u2 by auto
qed

theorem other_keys_scalar_witness:
  "''user_preferences'' \<notin> set predefined_keys \<and>
   (\<exists>st p. update_all [(''topics_asked'', ''recursion'')] init_memory = Inr st
      \<and> user_profile st = Some p
      \<and> update_user_profile ''user_preferences'' ''a'' st
          = Inr (st\<lparr>user_profile := Some (p(''user_preferences'' \<mapsto> PScalar ''a''))\<rparr>)
      \<and> update_user_profile ''user_preferences'' ''b''
            (st\<lparr>user_profile := Some (p(''user_preferences'' \<mapsto> PScalar ''a''))\<rparr>)
          = Inr (st\<lparr>user_profile := Some (p(''user_preferences'' \<mapsto> PScalar ''b''))\<rparr>))"
proof -
  have h: "''user_preferences'' \<notin> set predefined_keys" by (simp add: predefined_keys_def)
  from other_keys_scalar [OF h, of "[(''topics_asked'', ''recursion'')]" "''a''" "''b''"]
  show ?thesis using h by blast
qed

subsection \<open>The shape of a run\<close>

lemma rank_next: "n \<noteq> N_END \<Longrightarrow> rank (next_node n s) < rank n"
  by (cases n)
     (auto simp: route_after_router_def route_after_memory_def node_of_agent_def
           split: option.splits list.splits)

lemma next_not_END: "n \<noteq> N_END \<Longrightarrow> n \<noteq> N_synthesizer \<Longrightarrow> next_node n s \<noteq> N_END"
  by (cases n)
     (auto simp: route_after_router_def route_after_memory_def node_of_agent_def
           split: option.splits list.splits)

lemma run_synthesizer:
  "run ev N_synthesizer s st =
     (fst (exec_node ev N_synthesizer s st), snd (exec_node ev N_synthesizer s st), [N_synthesizer])"
  by (simp add: run.simps [of ev N_synthesizer] run.simps [of ev N_END] split: prod.splits)

lemma run_step:
  "n \<noteq> N_END \<Longrightarrow>
   run ev n s st =
     (case run ev (next_node n (fst (exec_node ev n s st)))
             (fst (exec_node ev n s st)) (snd (exec_node ev n s st)) of
        (sf, stf, path) \<Rightarrow> (sf, stf, n # path))"
  by (simp add: run.simps [of ev n] split: prod.splits)

lemma run_inv:
  assumes step: "\<And>p n s st. I p n s st \<Longrightarrow> n \<noteq> N_END \<Longrightarrow> n \<noteq> N_synthesizer \<Longrightarrow>
            I (p @ [n]) (next_node n (fst (exec_node ev n s st)))
              (fst (exec_node ev n s st)) (snd (exec_node ev n s st))"
  shows "I p n s st \<Longrightarrow> n \<noteq> N_END \<Longrightarrow>
         \<exists>p1 s1 st1. I (p @ p1) N_synthesizer s1 st1
            \<and> N_synthesizer \<notin> set p1
            \<and> run ev n s st =
                (fst (exec_node ev N_synthesizer s1 st1),
                 snd (exec_node ev N_synthesizer s1 st1), p1 @ [N_synthesizer])"
proof (induction "rank n" arbitrary: n s st p rule: less_induct)
  case less
  show ?case
  proof (cases "n = N_synthesizer")
    case True
    have "I (p @ []) N_synthesizer s st" using less.prems(1) True by simp
    moreover have "run ev n s st =
        (fst (exec_node ev N_synthesizer s st), snd (exec_node ev N_synthesizer s st),
         [] @ [N_synthesizer])"
      using True run_synthesizer by simp
    ultimately show ?thesis by (metis empty_iff empty_set)
  next
    case False
    let ?s' = "fst (exec_node ev n s st)"
    let ?st' = "snd (exec_node ev n s st)"
    let ?n' = "next_node n ?s'"
    have i': "I (p @ [n]) ?n' ?s' ?st'"
      using step less.prems False by blast
    have ne: "?n' \<noteq> N_END" using next_not_END less.prems(2) False by blast
    have "rank ?n' < rank n" using rank_next less.prems(2) by blast
    from less.hyps [OF this i' ne]
    obtain p1 s1 st1 where a: "I ((p @ [n]) @ p1) N_synthesizer s1 st1"
      and b: "N_synthesizer \<notin> set p1"
      and c: "run ev ?n' ?s' ?st' =
                (fst (exec_node ev N_synthesizer s1 st1),
                 snd (exec_node ev N_synthesizer s1 st1), p1 @ [N_synthesizer])"
      by blast
    have "run ev n s st =
            (fst (exec_node ev N_synthesizer s1 st1),
             snd (exec_node ev N_synthesizer s1 st1), (n # p1) @ [N_synthesizer])"
      using run_step [OF less.prems(2), of ev s st] c by simp
    moreover have "I (p @ (n # p1)) N_synthesizer s1 st1" using a by simp
    moreover have "N_synthesizer \<notin> set (n # p1)" using b False by simp
    ultimately show ?thesis by blast
  qed
qed

subsection \<open>Every run returns a response\<close>

lemma step_parts_nonempty: "x \<in> set (step_parts i ss) \<Longrightarrow> x \<noteq> []"
  by (induction i ss rule: step_parts.induct) auto

lemma answer_parts_nonempty: "x \<in> set (answer_parts s) \<Longrightarrow> x \<noteq> []"
  by (auto simp: answer_parts_def theory_parts_def code_parts_def plan_parts_def
           dest: step_parts_nonempty split: option.splits if_splits)

lemma concat_nonempty: "xs \<noteq> [] \<Longrightarrow> \<forall>x \<in> set xs. x \<noteq> [] \<Longrightarrow> concat xs \<noteq> []"
  by (cases xs) auto

lemma final_answer_nonempty: "final_answer s \<noteq> []"
  using concat_nonempty [of "answer_parts s"] answer_parts_nonempty [of _ s]
  by (auto simp: final_answer_def no_parts_answer_def Let_def)

text \<open>The exception of the \<open>append\<close> in \<open>store_interaction\<close> on a history that is no list.\<close>

lemma store_interaction_raises:
  "\<forall>h. session_history st \<noteq> Entries h \<Longrightarrow>
   store_interaction now q r ags st =
     Inl (if session_history st = Missing then KeyError ''session_history''
          else AttributeError no_append_message)"
  by (cases "session_history st") (simp_all add: store_interaction_def)

lemma synthesizer_failed:
  "\<forall>h. session_history st \<noteq> Entries h \<Longrightarrow>
   e = (if session_history st = Missing then KeyError ''session_history''
        else AttributeError no_append_message) \<Longrightarrow>
   synthesizer_node ev s st =
     (s\<lparr>error := Some (''Synthesizer error: '' @ str_of_exn e),
        final_response := Some (handler_response e s)\<rparr>, st)"
  by (simp add: synthesizer_node_def store_interaction_raises Let_def)

lemma synthesizer_stored:
  "session_history st = Entries h \<Longrightarrow>
   synthesizer_node ev s st =
     (s\<lparr>final_response := Some (merged_response s)\<rparr>,
      st\<lparr>session_history :=
           Entries (last_n 20 (h @ [new_interaction (clock ev) (user_query s) (final_answer s)
                                      (fr_agents_involved (merged_response s))]))\<rparr>)"
  by (simp add: synthesizer_node_def store_interaction_history Let_def)

lemma synthesizer_answer:
  "\<exists>fr. final_response (fst (synthesizer_node ev s st)) = Some fr \<and> answer fr \<noteq> []"
proof (cases "\<exists>h. session_history st = Entries h")
  case False
  then show ?thesis by (simp add: synthesizer_failed handler_response_def)
next
  case True
  then obtain h where "session_history st = Entries h" by blast
  then show ?thesis
    by (simp add: synthesizer_stored merged_response_def final_answer_nonempty)
qed

lemma exec_final_response:
  "final_response (fst (exec_node ev n s st)) = final_response (fst (node_fn n ev s st))"
  by (simp add: exec_node_def apply_update_def split: prod.splits)

text \<open>
  C1: for every query, every store and every outcome of the generator calls,
  \<open>process_query\<close> returns; the run starts at the router, ends with the synthesizer, and the
  final state holds a response whose answer is not empty. A failure inside a stage never
  leaves the workflow: every node function is total and the edges do not depend on it.
\<close>

theorem process_query_returns:
  "\<exists>s st' path fr. process_query ev st q = (s, st', N_router # path @ [N_synthesizer])
      \<and> N_synthesizer \<notin> set path
      \<and> final_response s = Some fr \<and> answer fr \<noteq> []"
proof -
  let ?I = "\<lambda>(p :: node list) (n :: node) (s :: MultiAgentState) (st :: MemoryStore). True"
  have "\<exists>p1 s1 st1. ?I ([] @ p1) N_synthesizer s1 st1 \<and> N_synthesizer \<notin> set p1
          \<and> run ev (next_node N_router (fst (exec_node ev N_router (initial_state q) st)))
                (fst (exec_node ev N_router (initial_state q) st))
                (snd (exec_node ev N_router (initial_state q) st)) =
              (fst (exec_node ev N_synthesizer s1 st1),
               snd (exec_node ev N_synthesizer s1 st1), p1 @ [N_synthesizer])"
    using next_not_END [of N_router] by (intro run_inv) simp_all
  then obtain p1 s1 st1 where np: "N_synthesizer \<notin> set p1"
    and r: "run ev (next_node N_router (fst (exec_node ev N_router (initial_state q) st)))
                (fst (exec_node ev N_router (initial_state q) st))
                (snd (exec_node ev N_router (initial_state q) st)) =
              (fst (exec_node ev N_synthesizer s1 st1),
               snd (exec_node ev N_synthesizer s1 st1), p1 @ [N_synthesizer])"
    by blast
  have pq: "process_query ev st q =
          (fst (exec_node ev N_synthesizer s1 st1), snd (exec_node ev N_synthesizer s1 st1),
           N_router # p1 @ [N_synthesizer])"
    using run_step [of N_router ev "initial_state q" st] r by (simp add: process_query_def)
  obtain fr where "final_response (fst (exec_node ev N_synthesizer s1 st1)) = Some fr"
    and "answer fr \<noteq> []"
    using synthesizer_answer [of ev s1 st1] by (auto simp: exec_final_response)
  with pq np show ?thesis by blast
qed

theorem process_query_returns_witness:
  "\<exists>s st' path fr.
      process_query env0 store_no_history ''What is recursion?''
        = (s, st', N_router # path @ [N_synthesizer])
      \<and> N_synthesizer \<notin> set path
      \<and> final_response s = Some fr \<and> answer fr \<noteq> []"
  by (rule process_query_returns)

subsection \<open>Confidence\<close>

lemma exec_error: "error (fst (exec_node ev n s st)) = error (fst (node_fn n ev s st))"
  by (simp add: exec_node_def apply_update_def split: prod.splits)









lemma result_fields_update [simp]:
  "sections_contributed (s\<lparr>final_response := f\<rparr>) = sections_contributed s"
  "sections_contributed (s\<lparr>error := e\<rparr>) = sections_contributed s"
  "sections_contributed (s\<lparr>agents_involved := a\<rparr>) = sections_contributed s"
  "sections_contributed (s\<lparr>tools_used := t\<rparr>) = sections_contributed s"
  by (simp_all add: sections_contributed_def)







text \<open>
  With a routing decision that asks for memory the same query gets a section from the
  memory manager and one from the theory explainer, and the confidence is \<open>high\<close>.
\<close>

lemma confidence_high_example:
  "map_option confidence
     (final_response (fst (process_query env_needs_memory init_memory ''What is recursion?'')))
     = Some ''high''
   \<and> sections_contributed (fst (process_query env_needs_memory init_memory ''What is recursion?''))
       = 2"
  by code_simp

subsection \<open>Failure of the synthesizer\<close>

lemma update_user_profile_history:
  "update_user_profile k v st = Inr st' \<Longrightarrow> session_history st' = session_history st"
  by (auto simp: update_user_profile_def split: option.splits pvalue.splits if_splits)

lemma node_history:
  "n \<noteq> N_synthesizer \<Longrightarrow> session_history (snd (node_fn n ev s st)) = session_history st"
  by (cases n)
     (auto simp: router_node_def memory_manager_node_def theory_explainer_node_def
                 code_helper_node_def planner_node_def Let_def
           dest: update_user_profile_history
           split: sum.splits if_splits)

lemma exec_store: "snd (exec_node ev n s st) = snd (node_fn n ev s st)"
  by (simp add: exec_node_def split: prod.splits)

text \<open>
  C6: the \<open>try\<close> block of the synthesizer raises exactly when the history of the store is
  not a list: at the subscript in \<open>store_interaction\<close> when the key is not there, at the
  \<open>append\<close> when the value is a string; nothing is appended in either case. Then the node
  returns the handler's response (the answer is the error text, confidence \<open>low\<close>,
  \<open>memory_accessed\<close> false) and the store as it was; the same holds for the whole run on
  such a store, whose session history is the same before and after.
\<close>

theorem synthesizer_failure:
  assumes "session_history st = Missing \<or> session_history st = Text t"
    and "e = (if session_history st = Missing then KeyError ''session_history''
              else AttributeError no_append_message)"
  shows "synthesizer_node ev s st =
           (s\<lparr>error := Some (''Synthesizer error: '' @ str_of_exn e),
              final_response :=
                Some \<lparr> answer = ''Error generating response: '' @ str_of_exn e,
                       fr_agents_involved = agents_involved s,
                       fr_tools_used = tools_used s,
                       memory_accessed = False,
                       confidence = ''low'' \<rparr>\<rparr>, st)
         \<and> (\<exists>sf stf path fr. process_query ev st q = (sf, stf, path)
               \<and> final_response sf = Some fr
               \<and> answer fr = ''Error generating response: '' @ str_of_exn e
               \<and> confidence fr = ''low'' \<and> \<not> memory_accessed fr
               \<and> session_history stf = session_history st)"
proof
  have nl: "\<forall>h. session_history st \<noteq> Entries h" using assms(1) by auto
  show "synthesizer_node ev s st =
           (s\<lparr>error := Some (''Synthesizer error: '' @ str_of_exn e),
              final_response :=
                Some \<lparr> answer = ''Error generating response: '' @ str_of_exn e,
                       fr_agents_involved = agents_involved s,
                       fr_tools_used = tools_used s,
                       memory_accessed = False,
                       confidence = ''low'' \<rparr>\<rparr>, st)"
    using synthesizer_failed [OF nl assms(2)] by (simp add: handler_response_def)
next
  have nl: "\<forall>h. session_history st \<noteq> Entries h" using assms(1) by auto
  let ?I = "\<lambda>(p :: node list) (n :: node) (s :: MultiAgentState) (st' :: MemoryStore).
              session_history st' = session_history st"
  have "\<exists>p1 s1 st1. ?I ([] @ p1) N_synthesizer s1 st1 \<and> N_synthesizer \<notin> set p1
          \<and> run ev N_router (initial_state q) st =
              (fst (exec_node ev N_synthesizer s1 st1),
               snd (exec_node ev N_synthesizer s1 st1), p1 @ [N_synthesizer])"
  proof (rule run_inv)
    fix p :: "node list" and n and s :: MultiAgentState and st' :: MemoryStore
    assume "session_history st' = session_history st" and "n \<noteq> N_synthesizer"
    then show "session_history (snd (exec_node ev n s st')) = session_history st"
      using node_history [of n ev s st'] by (simp add: exec_store)
  qed simp_all
  then obtain p1 s1 st1 where inv: "session_history st1 = session_history st"
    and r: "process_query ev st q =
              (fst (exec_node ev N_synthesizer s1 st1),
               snd (exec_node ev N_synthesizer s1 st1), p1 @ [N_synthesizer])"
    by (auto simp: process_query_def)
  have nl1: "\<forall>h. session_history st1 \<noteq> Entries h" using nl inv by simp
  have e1: "e = (if session_history st1 = Missing then KeyError ''session_history''
                 else AttributeError no_append_message)"
    using assms(2) inv by simp
  have "exec_node ev N_synthesizer s1 st1 =
          (apply_update s1
             (s1\<lparr>error := Some (''Synthesizer error: '' @ str_of_exn e),
                 final_response := Some (handler_response e s1)\<rparr>),
           st1)"
    using synthesizer_failed [OF nl1 e1] by (simp add: exec_node_def)
  then show "\<exists>sf stf path fr. process_query ev st q = (sf, stf, path)
               \<and> final_response sf = Some fr
               \<and> answer fr = ''Error generating response: '' @ str_of_exn e
               \<and> confidence fr = ''low'' \<and> \<not> memory_accessed fr
               \<and> session_history stf = session_history st"
    using r inv by (simp add: apply_update_def handler_response_def)
qed

theorem synthesizer_failure_witness:
  "(\<exists>sf stf path fr. process_query env0 store_no_history ''What is recursion?'' = (sf, stf, path)
       \<and> final_response sf = Some fr
       \<and> answer fr = ''Error generating response: '' @ str_of_exn (KeyError ''session_history'')
       \<and> confidence fr = ''low'' \<and> \<not> memory_accessed fr
       \<and> session_history stf = Missing)
   \<and> (\<exists>sf stf path fr. process_query env_needs_memory store_text_history ''What is recursion?''
           = (sf, stf, path)
       \<and> final_response sf = Some fr
       \<and> answer fr = ''Error generating response: '' @ no_append_message
       \<and> confidence fr = ''low'' \<and> \<not> memory_accessed fr
       \<and> session_history stf = Text [])"
proof -
  have h1: "session_history store_no_history = Missing \<or> session_history store_no_history = Text []"
    by (simp add: store_no_history_def)
  have e1: "KeyError ''session_history'' =
              (if session_history store_no_history = Missing then KeyError ''session_history''
               else AttributeError no_append_message)"
    by (simp add: store_no_history_def)
  have h2: "session_history store_text_history = Missing
              \<or> session_history store_text_history = Text []"
    by (simp add: store_text_history_def)
  have e2: "AttributeError no_append_message =
              (if session_history store_text_history = Missing then KeyError ''session_history''
               else AttributeError no_append_message)"
    by (simp add: store_text_history_def)
  from synthesizer_failure [OF h1 e1, of env0 "initial_state []" "''What is recursion?''"]
    synthesizer_failure [OF h2 e2, of env_needs_memory "initial_state []" "''What is recursion?''"]
  show ?thesis
    by (simp add: store_no_history_def store_text_history_def)
qed

subsection \<open>The memory stage\<close>

lemma retrieve_update_result:
  "retrieve_update ql st = Inr mu \<Longrightarrow>
   action mu = ''retrieve'' \<and> retrieved_context mu \<noteq> None \<and> mu_value mu = None"
  by (auto simp: retrieve_update_def Let_def split: sum.splits if_splits)

lemma manage_memory_retrieve:
  "manage_memory (Some st) q ''retrieve'' = Inr mu \<Longrightarrow>
   action mu = ''retrieve'' \<and> retrieved_context mu \<noteq> None \<and> mu_value mu = None"
  using retrieve_update_result [of "lower q" st mu]
  by (simp add: manage_memory_def Let_def)

lemma memory_manager_node_retrieve:
  assumes "routing_decision s = Some r" and "needs_memory r"
  shows "memory_manager_node ev s st =
           (case manage_memory (Some st) (user_query s) ''retrieve'' of
              Inl e \<Rightarrow> (s\<lparr>memory_context := None,
                           error := Some (''Memory error: '' @ str_of_exn e)\<rparr>, st)
            | Inr mu \<Rightarrow> (s\<lparr>memory_update := Some mu,
                            memory_context := retrieved_context mu,
                            agents_involved := [''memory_manager'']\<rparr>, st))"
proof (cases "manage_memory (Some st) (user_query s) ''retrieve''")
  case (Inl e)
  then show ?thesis using assms by (simp add: memory_manager_node_def Let_def)
next
  case (Inr mu)
  then have "action mu = ''retrieve''" using manage_memory_retrieve by blast
  then show ?thesis using assms Inr by (simp add: memory_manager_node_def Let_def)
qed

lemma update_user_profile_preference:
  "update_user_profile k v st = Inr st' \<Longrightarrow> k \<noteq> ''user_preferences'' \<Longrightarrow>
   preference st' = preference st"
  by (auto simp: update_user_profile_def preference_def
           split: option.splits pvalue.splits if_splits)

lemma route_to_memory:
  "route_after_router s = N_memory_manager \<Longrightarrow>
   \<exists>r. routing_decision s = Some r \<and> needs_memory r"
  by (auto simp: route_after_router_def node_of_agent_def split: option.splits list.splits if_splits)

lemma route_after_memory_not_memory:
  "route_after_memory s \<noteq> N_memory_manager \<and> route_after_memory s \<noteq> N_router"
  by (auto simp: route_after_memory_def node_of_agent_def split: option.splits list.splits)

lemma route_after_router_not_router: "route_after_router s \<noteq> N_router"
  by (auto simp: route_after_router_def node_of_agent_def split: option.splits list.splits)

lemma memory_inv_router:
  assumes "memory_inv st0 p N_router s st"
  shows "memory_inv st0 (p @ [N_router]) (next_node N_router (fst (exec_node ev N_router s st)))
           (fst (exec_node ev N_router s st)) (snd (exec_node ev N_router s st))"
proof -
  let ?s' = "fst (exec_node ev N_router s st)"
  have st: "snd (exec_node ev N_router s st) = st"
    by (simp add: exec_node_def router_node_def split: sum.splits)
  have mu: "memory_update ?s' = memory_update s" "memory_context ?s' = memory_context s"
    by (simp_all add: exec_node_def router_node_def apply_update_def split: sum.splits)
  show ?thesis
    using assms route_to_memory [of ?s'] route_after_router_not_router [of ?s']
    by (auto simp: memory_inv_def st mu)
qed

lemma memory_inv_memory:
  assumes "memory_inv st0 p N_memory_manager s st"
  shows "memory_inv st0 (p @ [N_memory_manager])
           (next_node N_memory_manager (fst (exec_node ev N_memory_manager s st)))
           (fst (exec_node ev N_memory_manager s st)) (snd (exec_node ev N_memory_manager s st))"
proof -
  from assms obtain r where r: "routing_decision s = Some r" "needs_memory r"
    and none: "memory_update s = None" "memory_context s = None"
    and pref: "preference st = preference st0" "session_history st = session_history st0"
    by (auto simp: memory_inv_def)
  let ?s' = "fst (exec_node ev N_memory_manager s st)"
  note nn = route_after_memory_not_memory [of ?s']
  show ?thesis
  proof (cases "manage_memory (Some st) (user_query s) ''retrieve''")
    case (Inl e)
    then show ?thesis using none pref nn
      by (simp add: memory_inv_def exec_node_def memory_manager_node_retrieve [OF r]
            apply_update_def)
  next
    case (Inr mu)
    then show ?thesis using pref nn manage_memory_retrieve [OF Inr]
      by (auto simp: memory_inv_def exec_node_def memory_manager_node_retrieve [OF r]
            apply_update_def)
  qed
qed

lemma specialist_memory_fields:
  assumes "n = N_theory_explainer \<or> n = N_code_helper \<or> n = N_planner"
  shows "memory_update (fst (exec_node ev n s st)) = memory_update s
       \<and> memory_context (fst (exec_node ev n s st)) = memory_context s
       \<and> session_history (snd (exec_node ev n s st)) = session_history st
       \<and> preference (snd (exec_node ev n s st)) = preference st"
  using assms
  by (auto simp: exec_node_def apply_update_def theory_explainer_node_def code_helper_node_def
        planner_node_def Let_def
        dest: update_user_profile_history update_user_profile_preference
        split: sum.splits prod.splits if_splits)

lemma memory_inv_step:
  assumes "memory_inv st0 p n s st" and "n \<noteq> N_END" and "n \<noteq> N_synthesizer"
  shows "memory_inv st0 (p @ [n]) (next_node n (fst (exec_node ev n s st)))
           (fst (exec_node ev n s st)) (snd (exec_node ev n s st))"
proof (cases "n = N_router")
  case True
  then show ?thesis using assms memory_inv_router by simp
next
  case nr: False
  show ?thesis
  proof (cases "n = N_memory_manager")
    case True
    then show ?thesis using assms memory_inv_memory by simp
  next
    case False
    then have sp: "n = N_theory_explainer \<or> n = N_code_helper \<or> n = N_planner"
      using assms nr by (cases n) simp_all
    then have nx: "next_node n (fst (exec_node ev n s st)) = N_synthesizer" by auto
    from specialist_memory_fields [OF sp, of ev s st] assms(1) show ?thesis
      by (auto simp: memory_inv_def nx)
  qed
qed

lemma memory_inv_run:
  "\<exists>p1 s1 st1. memory_inv st p1 N_synthesizer s1 st1 \<and> N_synthesizer \<notin> set p1
      \<and> process_query ev st q =
          (fst (exec_node ev N_synthesizer s1 st1),
           snd (exec_node ev N_synthesizer s1 st1), p1 @ [N_synthesizer])"
proof -
  have "\<exists>p1 s1 st1. memory_inv st ([] @ p1) N_synthesizer s1 st1 \<and> N_synthesizer \<notin> set p1
          \<and> run ev N_router (initial_state q) st =
              (fst (exec_node ev N_synthesizer s1 st1),
               snd (exec_node ev N_synthesizer s1 st1), p1 @ [N_synthesizer])"
  proof (rule run_inv)
    show "memory_inv st [] N_router (initial_state q) st"
      by (simp add: memory_inv_def initial_state_def)
  qed (simp_all add: memory_inv_step)
  then show ?thesis by (simp add: process_query_def)
qed

lemma exec_synthesizer_memory:
  "memory_update (fst (exec_node ev N_synthesizer s st)) = memory_update s
   \<and> memory_context (fst (exec_node ev N_synthesizer s st)) = memory_context s
   \<and> preference (snd (exec_node ev N_synthesizer s st)) = preference st"
proof (cases "\<exists>h. session_history st = Entries h")
  case False
  then show ?thesis
    by (simp add: exec_node_def synthesizer_failed apply_update_def)
next
  case True
  then obtain h where "session_history st = Entries h" by blast
  then show ?thesis
    by (simp add: exec_node_def synthesizer_stored apply_update_def preference_def)
qed



text \<open>
  C7: for the query \<open>remember that I like Go\<close>, whatever the generator returns and whatever
  the store holds, a memory update recorded by the run is a retrieval with no value, and
  the \<open>user_preferences\<close> entry of the profile is left as it was: the memory manager is
  entered only when the routing decision asks for memory, and then the action is
  \<open>retrieve\<close>.
\<close>

theorem remember_not_stored:
  "\<exists>sf stf path. process_query ev st ''remember that I like Go'' = (sf, stf, path)
     \<and> (\<forall>mu. memory_update sf = Some mu \<longrightarrow> action mu = ''retrieve'' \<and> mu_value mu = None)
     \<and> preference stf = preference st"
proof -
  from memory_inv_run [of st ev "''remember that I like Go''"]
  obtain p1 s1 st1 where inv: "memory_inv st p1 N_synthesizer s1 st1"
    and r: "process_query ev st ''remember that I like Go'' =
          (fst (exec_node ev N_synthesizer s1 st1),
           snd (exec_node ev N_synthesizer s1 st1), p1 @ [N_synthesizer])"
    by blast
  have "\<forall>mu. memory_update (fst (exec_node ev N_synthesizer s1 st1)) = Some mu
          \<longrightarrow> action mu = ''retrieve'' \<and> mu_value mu = None"
    using inv exec_synthesizer_memory [of ev s1 st1] by (simp add: memory_inv_def)
  moreover have "preference (snd (exec_node ev N_synthesizer s1 st1)) = preference st"
    using inv exec_synthesizer_memory [of ev s1 st1] by (simp add: memory_inv_def)
  ultimately show ?thesis using r by blast
qed




theorem remember_not_stored_witness:
  "\<exists>sf stf path. process_query env0 init_memory ''remember that I like Go'' = (sf, stf, path)
     \<and> (\<forall>mu. memory_update sf = Some mu \<longrightarrow> action mu = ''retrieve'' \<and> mu_value mu = None)
     \<and> preference stf = preference init_memory"
  by (rule remember_not_stored)

text \<open>
  Called with the action \<open>auto\<close>, the memory manager does choose the store path for this
  query; no run calls it so.
\<close>

lemma manage_memory_auto_store:
  "manage_memory (Some st) ''remember that I like Go'' ''auto'' =
     Inr \<lparr> action = ''store'', key = ''user_preference'',
           mu_value = Some ''remember that I like Go'', retrieved_context = None,
           mu_reasoning = ''Storing user preference or information'' \<rparr>"
  by (simp add: manage_memory_def Let_def lower_def lower_char_def any_in_def store_words_def)

text \<open>
  On the empty store with every generator call failing, the run of this query goes from
  the router to the theory explainer: the memory stage does not run and the answer is not
  the text given when no specialist has run.
\<close>

lemma remember_run_example:
  "snd (snd (process_query env0 init_memory ''remember that I like Go''))
     = [N_router, N_theory_explainer, N_synthesizer]
   \<and> memory_update (fst (process_query env0 init_memory ''remember that I like Go'')) = None
   \<and> map_option answer (final_response (fst (process_query env0 init_memory ''remember that I like Go'')))
       \<noteq> Some no_parts_answer"
  by code_simp

subsection \<open>Fallback routing\<close>

lemma recent_lines_total:
  "\<forall>i \<in> set xs. query i \<noteq> None \<Longrightarrow> \<exists>s. recent_lines (map Entry xs) = Inr s"
  by (induction xs) (auto simp: item_query_def)

lemma any_in_set: "any_in ws s \<longleftrightarrow> (\<exists>w \<in> set ws. contains w s)"
  by (simp add: any_in_def list_ex_iff)

lemma fallback_routing_spec:
  "(query_type (fallback_routing q rc), target_agents (fallback_routing q rc)) = spec_fallback q"
  by (simp add: fallback_routing_def spec_fallback_def spec_keyword_groups_def Let_def
        any_in_set theory_words_def code_words_def planning_words_def)

lemma fallback_routing_flags:
  "needs_memory (fallback_routing q rc) = (rc \<noteq> []) \<and> \<not> needs_tools (fallback_routing q rc)"
  by (simp add: fallback_routing_def Let_def split: prod.splits)

lemma explain_wins:
  "contains ''explain'' (lower q) \<Longrightarrow>
   query_type (fallback_routing q rc) = THEORY
   \<and> target_agents (fallback_routing q rc) = [''theory_explainer'']"
  by (simp add: fallback_routing_def Let_def any_in_set theory_words_def)

text \<open>
  C2: when the generator call of the router fails (and the store has let the router read
  its two most recent entries), \<open>route_query\<close> returns the decision of the keyword
  fallback: query type and targets are those of the first keyword group of the
  specification, in its order, that has a token in the lower-cased query, and
  \<open>general\<close> with the theory explainer when none has; \<open>needs_memory\<close> holds exactly when
  the recent context is not empty, which is when the history is not empty;
  \<open>needs_tools\<close> is false. A query with both \<open>explain\<close> and \<open>python\<close> goes to theory.
\<close>

theorem keyword_fallback:
  assumes "llm_router ev = None" and "session_history st = Entries h"
    and "\<forall>i \<in> set (last_n 2 h). query i \<noteq> None"
  shows "\<exists>d. route_query ev q st = Inr d
           \<and> (query_type d, target_agents d) = spec_fallback q
           \<and> (needs_memory d \<longleftrightarrow> retrieve_recent_context 2 st \<noteq> Inr [])
           \<and> (needs_memory d \<longleftrightarrow> h \<noteq> [])
           \<and> \<not> needs_tools d
           \<and> (contains ''explain'' (lower q) \<and> contains ''python'' (lower q)
                \<longrightarrow> query_type d = THEORY \<and> target_agents d = [''theory_explainer''])"
proof -
  let ?rc = "map Entry (last_n 2 h)"
  obtain ls where ls: "recent_lines ?rc = Inr ls"
    using recent_lines_total [OF assms(3)] by blast
  have rc: "retrieve_recent_context 2 st = Inr ?rc"
    using assms(2) by (simp add: retrieve_recent_context_def history_items_def last_n_map)
  have rq: "route_query ev q st = Inr (fallback_routing q ?rc)"
    using assms(1) ls rc by (simp add: route_query_def)
  have e: "?rc = [] \<longleftrightarrow> h = []" using last_n_empty [of 2 h] by simp
  show ?thesis
    using rq rc e fallback_routing_spec [of q ?rc]
      fallback_routing_flags [of q ?rc] explain_wins [of q ?rc]
    by simp
qed

theorem keyword_fallback_witness:
  "\<exists>d. route_query env0 ''Explain Python decorators'' init_memory = Inr d
      \<and> query_type d = THEORY \<and> target_agents d = [''theory_explainer'']
      \<and> \<not> needs_memory d \<and> \<not> needs_tools d"
proof -
  have a: "llm_router env0 = None" by (simp add: env0_def)
  have b: "session_history init_memory = Entries []" by (simp add: init_memory_def)
  have c: "\<forall>i \<in> set (last_n 2 ([] :: interaction list)). query i \<noteq> None"
    by (simp add: last_n_def)
  have d: "contains ''explain'' (lower ''Explain Python decorators'')
           \<and> contains ''python'' (lower ''Explain Python decorators'')"
    by code_simp
  from keyword_fallback [OF a b c, of "''Explain Python decorators''"] d
  show ?thesis by auto
qed

subsection \<open>The code helper stage\<close>

lemma help_with_code_example:
  "code_example (fst (help_with_code ev q ctx)) =
     (case llm_code ev of None \<Rightarrow> None | Some c \<Rightarrow> code_example c)"
  by (simp add: help_with_code_def Let_def split: option.splits)

lemma help_with_code_explanation:
  "llm_code ev = Some c \<Longrightarrow>
   ch_explanation (fst (help_with_code ev q ctx)) =
     (case code_example c of
        None \<Rightarrow> ch_explanation c
      | Some code \<Rightarrow>
          (if code \<noteq> [] \<and> contains ''print'' (lower code) \<and> success (execute_python ev code)
           then ch_explanation c @ nl @ nl @ ''Execution result: ''
                  @ exec_output (execute_python ev code)
           else ch_explanation c))"
  by (simp add: help_with_code_def Let_def split: option.splits)

lemma help_with_code_calls:
  "snd (help_with_code ev q ctx) =
     (case code_example (fst (help_with_code ev q ctx)) of
        None \<Rightarrow> []
      | Some code \<Rightarrow> if code \<noteq> [] \<and> contains ''print'' (lower code) then [code] else [])"
proof (cases "llm_code ev")
  case None
  then show ?thesis by (simp add: help_with_code_def)
next
  case (Some c)
  then show ?thesis
    by (cases "code_example c") (simp_all add: help_with_code_def Let_def)
qed

lemma update_list_key:
  assumes "user_profile st = Some p" and "p k = Some (PList xs)"
  shows "update_user_profile k v st =
           Inr (st\<lparr>user_profile := Some (p(k \<mapsto> PList (if v \<in> set xs then xs else xs @ [v])))\<rparr>)"
proof (cases "v \<in> set xs")
  case True
  have "p(k \<mapsto> PList xs) = p" using assms(2) by (simp add: fun_upd_idem)
  then have "st\<lparr>user_profile := Some (p(k \<mapsto> PList xs))\<rparr> = st" using assms(1) by simp
  then show ?thesis using True update_present [OF assms True] by simp
next
  case False
  then show ?thesis using update_absent [OF assms False] by simp
qed

text \<open>
  C8, as the code has it: on a profile whose \<open>coding_languages\<close> is a list, the code
  helper stage appends \<open>Python\<close> to that list, by \<open>update_user_profile\<close>, when the
  lower-cased query contains \<open>python\<close>; it marks the tool \<open>code_executor\<close> exactly when
  the code example is there and not empty; it hands the example to the executor exactly
  when the example is not empty and contains \<open>print\<close>; and the output of the executor is
  appended to the explanation when the execution succeeded, the explanation being the
  generator's otherwise.
\<close>

theorem code_helper_stage:
  assumes "user_profile st = Some p" and "p ''coding_languages'' = Some (PList xs)"
  shows "\<exists>s' st' ch calls. code_helper_node ev s st = (s', st')
           \<and> help_with_code ev (user_query s) (memory_context s) = (ch, calls)
           \<and> code_help s' = Some ch
           \<and> (contains ''python'' (lower (user_query s)) \<longrightarrow>
                update_user_profile ''coding_languages'' ''Python'' st = Inr st'
                \<and> st' = st\<lparr>user_profile := Some (p(''coding_languages'' \<mapsto>
                         PList (if ''Python'' \<in> set xs then xs else xs @ [''Python''])))\<rparr>)
           \<and> tools_used s' = (if truthy (code_example ch)
                               then tools_used s @ [''code_executor''] else tools_used s)
           \<and> calls = (case code_example ch of
                         None \<Rightarrow> []
                       | Some code \<Rightarrow>
                           if code \<noteq> [] \<and> contains ''print'' (lower code) then [code] else [])
           \<and> (\<forall>c. llm_code ev = Some c \<longrightarrow>
                code_example ch = code_example c
                \<and> ch_explanation ch =
                    (case code_example c of
                       None \<Rightarrow> ch_explanation c
                     | Some code \<Rightarrow>
                         (if code \<noteq> [] \<and> contains ''print'' (lower code)
                               \<and> success (execute_python ev code)
                          then ch_explanation c @ nl @ nl @ ''Execution result: ''
                                 @ exec_output (execute_python ev code)
                          else ch_explanation c)))
           \<and> (llm_code ev = None \<longrightarrow> code_example ch = None)"
proof -
  define ch where "ch = fst (help_with_code ev (user_query s) (memory_context s))"
  define calls where "calls = snd (help_with_code ev (user_query s) (memory_context s))"
  define up where "up = st\<lparr>user_profile := Some (p(''coding_languages'' \<mapsto>
                         PList (if ''Python'' \<in> set xs then xs else xs @ [''Python''])))\<rparr>"
  define st' where "st' = (if contains ''python'' (lower (user_query s)) then up else st)"
  define s' where "s' = s\<lparr>code_help := Some ch, agents_involved := [''code_helper''],
               tools_used := (if truthy (code_example ch)
                              then tools_used s @ [''code_executor''] else tools_used s)\<rparr>"
  have upd: "update_user_profile ''coding_languages'' ''Python'' st = Inr up"
    using update_list_key [OF assms, of "''Python''"] by (simp add: up_def)
  have node: "code_helper_node ev s st = (s', st')"
    using upd by (simp add: code_helper_node_def Let_def s'_def st'_def ch_def)
  have pair: "help_with_code ev (user_query s) (memory_context s) = (ch, calls)"
    by (simp add: ch_def calls_def)
  have f1: "code_help s' = Some ch" by (simp add: s'_def)
  have f2: "tools_used s' = (if truthy (code_example ch)
                               then tools_used s @ [''code_executor''] else tools_used s)"
    by (simp add: s'_def)
  have cl: "calls = (case code_example ch of
                         None \<Rightarrow> []
                       | Some code \<Rightarrow>
                           if code \<noteq> [] \<and> contains ''print'' (lower code) then [code] else [])"
    unfolding ch_def calls_def by (rule help_with_code_calls)
  have ex: "\<forall>c. llm_code ev = Some c \<longrightarrow>
                code_example ch = code_example c
                \<and> ch_explanation ch =
                    (case code_example c of
                       None \<Rightarrow> ch_explanation c
                     | Some code \<Rightarrow>
                         (if code \<noteq> [] \<and> contains ''print'' (lower code)
                               \<and> success (execute_python ev code)
                          then ch_explanation c @ nl @ nl @ ''Execution result: ''
                                 @ exec_output (execute_python ev code)
                          else ch_explanation c))"
    using help_with_code_explanation [of ev _ "user_query s" "memory_context s"]
    by (simp add: help_with_code_example ch_def)
  have nn: "llm_code ev = None \<longrightarrow> code_example ch = None"
    by (simp add: help_with_code_example ch_def)
  have py: "contains ''python'' (lower (user_query s)) \<longrightarrow>
              update_user_profile ''coding_languages'' ''Python'' st = Inr st'
              \<and> st' = st\<lparr>user_profile := Some (p(''coding_languages'' \<mapsto>
                         PList (if ''Python'' \<in> set xs then xs else xs @ [''Python''])))\<rparr>"
    using upd by (simp add: st'_def up_def)
  show ?thesis
    by (rule exI [of _ s'], rule exI [of _ st'], rule exI [of _ ch], rule exI [of _ calls],
        intro conjI node pair f1 py f2 cl ex nn)
qed

theorem code_helper_stage_witness:
  "\<exists>s' st' ch calls.
      code_helper_node env_no_print (initial_state ''write python code'') init_memory = (s', st')
      \<and> help_with_code env_no_print ''write python code'' None = (ch, calls)
      \<and> code_help s' = Some ch
      \<and> (\<exists>p'. user_profile st' = Some p' \<and> p' ''coding_languages'' = Some (PList [''Python'']))
      \<and> tools_used s' = [''code_executor'']
      \<and> calls = []
      \<and> ch_explanation ch = ''The name x is bound to 1.''"
proof -
  have a: "user_profile init_memory = Some [''topics_asked'' \<mapsto> PList [], ''coding_languages'' \<mapsto> PList [],
                                   ''study_goals'' \<mapsto> PList []]"
    by (simp add: init_memory_def)
  have b: "[''topics_asked'' \<mapsto> PList [], ''coding_languages'' \<mapsto> PList [],
                                   ''study_goals'' \<mapsto> PList []] ''coding_languages'' = Some (PList [])"
    by simp
  have c: "contains ''python'' (lower (user_query (initial_state ''write python code'')))"
    by code_simp
  have d: "llm_code env_no_print = Some \<lparr> problem_description = ''assign a variable'',
              solution_approach = ''use an assignment'',
              code_example = Some ''x = 1'',
              ch_explanation = ''The name x is bound to 1.'',
              best_practices = [], common_pitfalls = [] \<rparr>"
    by (simp add: env_no_print_def)
  have e: "\<not> contains ''print'' (lower ''x = 1'')" by code_simp
  from code_helper_stage [OF a b, of env_no_print "initial_state ''write python code''"] c d e
  show ?thesis by (auto simp: truthy_def initial_state_def)
qed

text \<open>
  The claim C8 as stated fails in two ways. For a code example without a print call the
  tool is marked although nothing is handed to the executor. For an example with a print
  call that the executor refuses, the executor is called and returns a text, and the
  explanation is still the generator's.
\<close>

theorem code_executor_counterexample:
  "(''code_executor'' \<in> set (tools_used (fst (code_helper_node env_no_print
                                 (initial_state ''write code'') init_memory)))
    \<and> \<not> contains ''print'' (lower ''x = 1'')
    \<and> map_option code_example (code_help (fst (code_helper_node env_no_print
                                 (initial_state ''write code'') init_memory)))
        = Some (Some ''x = 1'')
    \<and> snd (help_with_code env_no_print ''write code'' None) = [])
   \<and> (contains ''print'' (lower unsafe_code)
       \<and> snd (help_with_code env_unsafe_print ''write code'' None) = [unsafe_code]
       \<and> exec_output (execute_python env_unsafe_print unsafe_code)
           = ''Error: Potentially unsafe operation detected: open(''
       \<and> map_option ch_explanation (code_help (fst (code_helper_node env_unsafe_print
                                 (initial_state ''write code'') init_memory)))
           = Some ''The file is read and printed.'')"
  by code_simp

end
